theory Spec2Isabelle
  imports Main "HOL-Library.AList"
begin

section \<open>Named-parameter rewriting and binding (db.go)\<close>

text \<open>
  A shallow embedding of \<^verbatim>\<open>db.go\<close>: the placeholder rewriter built on
  \<^verbatim>\<open>regexp.ReplaceAllStringFunc\<close> with the pattern \<^verbatim>\<open>[?](\w+)\<close>, the two ad-hoc
  binders \<^verbatim>\<open>MapToSlice\<close> and \<^verbatim>\<open>StructToSlice\<close>, and the three execution facades
  (\<^verbatim>\<open>DB\<close>, \<^verbatim>\<open>Stmt\<close>, \<^verbatim>\<open>Tx\<close>).

  Go strings are byte strings and are modelled as \<^typ>\<open>string\<close>. The closures handed to
  \<^verbatim>\<open>ReplaceAllStringFunc\<close> mutate captured variables; the model threads those variables
  through the callback as an explicit state. Run-time panics are values of type \<open>panic\<close>.
  The \<^verbatim>\<open>context.Context\<close> argument is only forwarded and is left out. \<^verbatim>\<open>Open\<close>,
  \<^verbatim>\<open>FromDB\<close>, the options and \<^verbatim>\<open>EmptyScanner\<close> take no part in rewriting or binding and
  are not modelled.
\<close>

subsection \<open>The pattern \<^verbatim>\<open>[?](\w+)\<close>\<close>

text \<open>
  In Go's regexp syntax \<^verbatim>\<open>\w\<close> is the ASCII class \<^verbatim>\<open>[0-9A-Za-z_]\<close>. Both \<^verbatim>\<open>?\<close>
  and the word characters are single bytes below 128, and no byte of a multi-byte UTF-8
  sequence is below 128, so matching on bytes agrees with matching on runes.
\<close>

definition is_word :: "char \<Rightarrow> bool" where
  "is_word c =
     (let n = (of_char c :: nat)
      in (48 \<le> n \<and> n \<le> 57) \<or> (65 \<le> n \<and> n \<le> 90) \<or> n = 95 \<or> (97 \<le> n \<and> n \<le> 122))"

text \<open>
  \<^verbatim>\<open>re.ReplaceAllStringFunc(src, repl)\<close>: the matches are the leftmost, non-overlapping
  ones, \<^verbatim>\<open>\w+\<close> is greedy, text outside the matches is copied, and \<^verbatim>\<open>repl\<close> is called
  once per match from left to right. The callback takes and returns the state of the
  variables its closure captures.
\<close>

function ReplaceAllStringFunc ::
  "(string \<Rightarrow> 's \<Rightarrow> string \<times> 's) \<Rightarrow> string \<Rightarrow> 's \<Rightarrow> string \<times> 's" where
  "ReplaceAllStringFunc repl [] st = ([], st)"
| "ReplaceAllStringFunc repl (c # cs) st =
     (if c = CHR ''?'' \<and> takeWhile is_word cs \<noteq> [] then
        (case repl (c # takeWhile is_word cs) st of (out, st') \<Rightarrow>
           (case ReplaceAllStringFunc repl (dropWhile is_word cs) st' of (rest, st'') \<Rightarrow>
              (out @ rest, st'')))
      else (case ReplaceAllStringFunc repl cs st of (rest, st') \<Rightarrow> (c # rest, st')))"
  by pat_completeness auto
termination
  by (relation "measure (\<lambda>(repl, s, st). length s)")
     (auto simp: length_dropWhile_le less_Suc_eq_le)

text \<open>\<^verbatim>\<open>re.FindAllString(src, -1)\<close>: the matches themselves, in order.\<close>

function FindAllString :: "string \<Rightarrow> string list" where
  "FindAllString [] = []"
| "FindAllString (c # cs) =
     (if c = CHR ''?'' \<and> takeWhile is_word cs \<noteq> [] then
        (c # takeWhile is_word cs) # FindAllString (dropWhile is_word cs)
      else FindAllString cs)"
  by pat_completeness auto
termination
  by (relation "measure length") (auto simp: length_dropWhile_le less_Suc_eq_le)

text \<open>The template with every match replaced by the positional marker \<^verbatim>\<open>?\<close>.\<close>

definition rewritten :: "string \<Rightarrow> string" where
  "rewritten query = fst (ReplaceAllStringFunc (\<lambda>src u. (''?'', u)) query ())"

text \<open>The names of the placeholders of a template, in order: each match without its \<^verbatim>\<open>?\<close>.\<close>

definition placeholders :: "string \<Rightarrow> string list" where
  "placeholders query = map tl (FindAllString query)"

text \<open>A template has a token: some \<^verbatim>\<open>?\<close> is directly followed by a word character.\<close>

fun has_token :: "string \<Rightarrow> bool" where
  "has_token (c # d # cs) = ((c = CHR ''?'' \<and> is_word d) \<or> has_token (d # cs))"
| "has_token _ = False"

subsection \<open>Values, errors and panics\<close>

text \<open>The values bound to placeholders (\<^verbatim>\<open>interface{}\<close> elements of the argument list).\<close>

datatype scalar = VNil | VInt int | VStr string

text \<open>
  Modelled from the spec: the sentinel errors \<^verbatim>\<open>ErrNoMapPointer\<close> and
  \<^verbatim>\<open>ErrNoStructPointer\<close> are package-level variables declared outside \<^verbatim>\<open>db.go\<close> (the
  spec's \<^verbatim>\<open>InvalidArgumentKind\<close>); they are two constants, distinct from every other error.
  \<open>ErrorString\<close> is an error made by \<^verbatim>\<open>errors.New\<close> or \<^verbatim>\<open>fmt.Errorf\<close>, with its
  message; \<open>External\<close> is an error coming from the driver or from a \<^verbatim>\<open>driver.Valuer\<close>.
\<close>

datatype go_error = ErrNoMapPointer | ErrNoStructPointer | ErrorString string | External string

text \<open>
  The panics of the run time: \<^verbatim>\<open>Interface()\<close> on the zero \<^verbatim>\<open>Value\<close> or on a value read
  from an unexported field, a slice index out of range, and \<^verbatim>\<open>MapIndex\<close> with a key that
  is not assignable to the map's key type or on a value that is no map.
\<close>

datatype panic =
    InterfaceOnZeroValue
  | InterfaceOnUnexported
  | IndexOutOfRange
  | KeyNotAssignable
  | MapIndexOnNonMap

text \<open>
  A struct field's value: \<open>Plain v\<close> does not implement \<^verbatim>\<open>driver.Valuer\<close>;
  \<open>Valuer v r\<close> does, and \<open>r\<close> is what its \<^verbatim>\<open>Value()\<close> method returns.
\<close>

datatype field = Plain scalar | Valuer scalar "go_error + scalar"

text \<open>
  What a caller can pass as \<^verbatim>\<open>mp\<close> or \<^verbatim>\<open>st\<close>: the nil interface, a value of some other
  kind, a map, a struct given by its fields, or a pointer (\<open>None\<close> is the nil pointer).
  The source looks a map up with a key of type \<^verbatim>\<open>string\<close>. \<open>MapV m\<close> is a map whose key
  type accepts such a key (\<^verbatim>\<open>map[string]T\<close>, or \<^verbatim>\<open>map[interface{}]T\<close>), given by what it
  holds under each string; a nil map reads as the empty map. \<open>MapOtherKey\<close> is a map of
  any other key type (\<^verbatim>\<open>map[int]T\<close>, say): no lookup with a string returns, so what it
  holds is left out.
\<close>

datatype go_arg =
    NilIface
  | Scalar scalar
  | MapV "string \<rightharpoonup> scalar"
  | MapOtherKey
  | StructV "string \<rightharpoonup> field"
  | Ptr "go_arg option"

datatype kind = reflect_Invalid | reflect_Ptr | reflect_Map | reflect_Struct | reflect_Other

fun Kind :: "go_arg \<Rightarrow> kind" where
  "Kind NilIface = reflect_Invalid"
| "Kind (Scalar v) = reflect_Other"
| "Kind (MapV m) = reflect_Map"
| "Kind MapOtherKey = reflect_Map"
| "Kind (StructV fs) = reflect_Struct"
| "Kind (Ptr p) = reflect_Ptr"

text \<open>
  \<^verbatim>\<open>Elem\<close> of a nil pointer is the zero \<^verbatim>\<open>Value\<close>. The source calls \<^verbatim>\<open>Elem\<close> only after
  \<^verbatim>\<open>Kind() != reflect.Ptr\<close> was false (\<^verbatim>\<open>||\<close> short-circuits), so the last equation is
  never reached.
\<close>

fun Elem :: "go_arg \<Rightarrow> go_arg" where
  "Elem (Ptr (Some x)) = x"
| "Elem (Ptr None) = NilIface"
| "Elem x = NilIface"

text \<open>
  \<^verbatim>\<open>MapIndex(reflect.ValueOf(key))\<close> with a key of type \<^verbatim>\<open>string\<close>: \<open>Inr None\<close> is the
  zero \<^verbatim>\<open>Value\<close>, for which \<^verbatim>\<open>IsValid()\<close> is false. It panics when a string is not
  assignable to the key type of the map, and on a value that is no map (the source calls
  it only after the kind check).
\<close>

fun MapIndex :: "go_arg \<Rightarrow> string \<Rightarrow> panic + scalar option" where
  "MapIndex (MapV m) k = Inr (m k)"
| "MapIndex MapOtherKey k = Inl KeyNotAssignable"
| "MapIndex x k = Inl MapIndexOnNonMap"

text \<open>
  A field can be read through reflection only if its name is exported. The names looked
  up are placeholder names, hence ASCII, and an ASCII name is exported when it starts with
  an upper-case letter.
\<close>

definition exported :: "string \<Rightarrow> bool" where
  "exported name =
     (case name of [] \<Rightarrow> False
      | c # cs \<Rightarrow> 65 \<le> (of_char c :: nat) \<and> (of_char c :: nat) \<le> 90)"

text \<open>
  \<^verbatim>\<open>FieldByName(name).Interface()\<close>: \<^verbatim>\<open>FieldByName\<close> gives the zero \<^verbatim>\<open>Value\<close> when there
  is no such field, and \<^verbatim>\<open>Interface()\<close> panics on the zero \<^verbatim>\<open>Value\<close> and on a value read
  from an unexported field.
\<close>

fun FieldByName_Interface :: "go_arg \<Rightarrow> string \<Rightarrow> panic + field" where
  "FieldByName_Interface (StructV fs) name =
     (case fs name of
        None \<Rightarrow> Inl InterfaceOnZeroValue
      | Some f \<Rightarrow> if exported name then Inr f else Inl InterfaceOnUnexported)"
| "FieldByName_Interface x name = Inl InterfaceOnZeroValue"

text \<open>The value a field holds, as \<^verbatim>\<open>Interface()\<close> returns it.\<close>

fun raw :: "field \<Rightarrow> scalar" where
  "raw (Plain v) = v"
| "raw (Valuer v r) = v"

subsection \<open>The ad-hoc binders\<close>

text \<open>
  \<^verbatim>\<open>MapToSlice\<close>. The closure captures \<^verbatim>\<open>args\<close> and \<^verbatim>\<open>err\<close>; \<open>None\<close> is the nil error,
  and \<open>missing_key name\<close> is \<^verbatim>\<open>fmt.Errorf("map key %s is missing", name)\<close>. A panic of
  \<^verbatim>\<open>MapIndex\<close> unwinds through \<^verbatim>\<open>ReplaceAllStringFunc\<close>: the state records it and
  later callbacks change nothing.
\<close>

definition missing_key :: "string \<Rightarrow> go_error" where
  "missing_key name = ErrorString (''map key '' @ name @ '' is missing'')"

definition MapToSlice_repl ::
  "go_arg \<Rightarrow> string \<Rightarrow> panic + scalar list \<times> go_error option
     \<Rightarrow> string \<times> (panic + scalar list \<times> go_error option)" where
  "MapToSlice_repl vv src st =
     (case st of
        Inl p \<Rightarrow> (''?'', Inl p)
      | Inr (args, err) \<Rightarrow>
          (case MapIndex (Elem vv) (tl src) of
             Inl p \<Rightarrow> (''?'', Inl p)
           | Inr None \<Rightarrow> (''?'', Inr (args, Some (missing_key (tl src))))
           | Inr (Some v) \<Rightarrow> (''?'', Inr (args @ [v], err))))"

definition MapToSlice ::
  "string \<Rightarrow> go_arg \<Rightarrow> panic + string \<times> scalar list \<times> go_error option" where
  "MapToSlice query mp =
     (let vv = mp in
      if Kind vv \<noteq> reflect_Ptr \<or> Kind (Elem vv) \<noteq> reflect_Map
      then Inr ('''', [], Some ErrNoMapPointer)
      else
        (case ReplaceAllStringFunc (MapToSlice_repl vv) query (Inr ([], None)) of
           (query', Inl p) \<Rightarrow> Inl p
         | (query', Inr (args, err)) \<Rightarrow> Inr (query', args, err)))"

text \<open>
  \<^verbatim>\<open>StructToSlice\<close>. The closure captures \<^verbatim>\<open>args\<close> and \<^verbatim>\<open>err\<close>, and
  \<^verbatim>\<open>value, err = v.Value()\<close> assigns the captured \<^verbatim>\<open>err\<close> on every call of a
  \<^verbatim>\<open>Valuer\<close>, also when the call succeeds. A panic of \<^verbatim>\<open>Interface()\<close> unwinds through
  \<^verbatim>\<open>ReplaceAllStringFunc\<close>: the state records it and later callbacks change nothing.
\<close>

definition StructToSlice_repl ::
  "go_arg \<Rightarrow> string \<Rightarrow> panic + scalar list \<times> go_error option
     \<Rightarrow> string \<times> (panic + scalar list \<times> go_error option)" where
  "StructToSlice_repl vv src st =
     (case st of
        Inl p \<Rightarrow> (''?'', Inl p)
      | Inr (args, err) \<Rightarrow>
          (case FieldByName_Interface (Elem vv) (tl src) of
             Inl p \<Rightarrow> (''?'', Inl p)
           | Inr (Valuer v (Inl e)) \<Rightarrow> (''?'', Inr (args, Some e))
           | Inr (Valuer v (Inr val)) \<Rightarrow> (''?'', Inr (args @ [val], None))
           | Inr (Plain fv) \<Rightarrow> (''?'', Inr (args @ [fv], err))))"

definition StructToSlice ::
  "string \<Rightarrow> go_arg \<Rightarrow> panic + string \<times> scalar list \<times> go_error option" where
  "StructToSlice query st =
     (let vv = st in
      if Kind vv \<noteq> reflect_Ptr \<or> Kind (Elem vv) \<noteq> reflect_Struct
      then Inr ('''', [], Some ErrNoStructPointer)
      else
        (case ReplaceAllStringFunc (StructToSlice_repl vv) query (Inr ([], None)) of
           (query', Inl p) \<Rightarrow> Inl p
         | (query', Inr (args, Some e)) \<Rightarrow> Inr ('''', [], Some e)
         | (query', Inr (args, None)) \<Rightarrow> Inr (query', args, None)))"

subsection \<open>The driver, the tracer and the store\<close>

text \<open>
  The \<^verbatim>\<open>database/sql\<close> objects are external: each is the record of what its methods
  answer. What the calls do is written to a trace, together with the spans of the tracer.
\<close>

datatype sql_Result = Result nat

datatype sql_Rows = Cursor nat

record sql_Stmt =
  Stmt_ExecContext :: "scalar list \<Rightarrow> go_error + sql_Result"
  Stmt_QueryContext :: "scalar list \<Rightarrow> go_error + sql_Rows"

record sql_Tx =
  Tx_ExecContext :: "string \<Rightarrow> scalar list \<Rightarrow> go_error + sql_Result"
  Tx_QueryContext :: "string \<Rightarrow> scalar list \<Rightarrow> go_error + sql_Rows"
  Tx_PrepareContext :: "string \<Rightarrow> go_error + sql_Stmt"

record sql_DB =
  DB_ExecContext :: "string \<Rightarrow> scalar list \<Rightarrow> go_error + sql_Result"
  DB_QueryContext :: "string \<Rightarrow> scalar list \<Rightarrow> go_error + sql_Rows"
  DB_PrepareContext :: "string \<Rightarrow> go_error + sql_Stmt"
  DB_Begin :: "go_error + sql_Tx"

datatype event =
    SpanStart string string
  | SpanFinish
  | ExecContext string "scalar list"
  | QueryContext string "scalar list"
  | PrepareContext string
  | StmtExecContext "scalar list"
  | StmtQueryContext "scalar list"
  | Begin

fun is_driver_call :: "event \<Rightarrow> bool" where
  "is_driver_call (SpanStart opname query) = False"
| "is_driver_call SpanFinish = False"
| "is_driver_call e = True"

text \<open>
  A name table is a Go map from names to ordinals, and a statement handle holds a reference
  to it. The store keeps the tables that \<^verbatim>\<open>make\<close> has allocated; a reference is an index
  into it. A table is an association list with distinct keys, so that
  \<^verbatim>\<open>for k, i := range s.names\<close> has entries to visit (Go fixes no order for them).
\<close>

type_synonym name_table = "(string \<times> nat) list"

record world =
  heap :: "name_table list"
  trace :: "event list"

definition make_map :: "world \<Rightarrow> nat \<times> world" where
  "make_map w = (length (heap w), w\<lparr>heap := heap w @ [[]]\<rparr>)"

text \<open>Reading through a reference; a reference to no allocated table is the nil map.\<close>

definition deref :: "world \<Rightarrow> nat \<Rightarrow> name_table" where
  "deref w a = (if a < length (heap w) then heap w ! a else [])"

text \<open>
  \<^verbatim>\<open>names[k] = i\<close> through the reference \<open>a\<close>: an existing key keeps its place, a new
  one is added. The source assigns only to the map it has just made; an assignment
  through a reference to no table (it panics in Go) leaves the store as it is.
\<close>

definition map_assign :: "nat \<Rightarrow> string \<Rightarrow> nat \<Rightarrow> world \<Rightarrow> world" where
  "map_assign a k i w = w\<lparr>heap := (heap w)[a := AList.update k i (deref w a)]\<rparr>"

definition emit :: "event \<Rightarrow> world \<Rightarrow> world" where
  "emit e w = w\<lparr>trace := trace w @ [e]\<rparr>"

text \<open>
  \<^verbatim>\<open>newClientSpanFromContext\<close>: the operation name is the query up to its first space, when
  that space is not the first byte; the span is tagged with the whole query.
\<close>

definition operationName :: "string \<Rightarrow> string" where
  "operationName query =
     (let pre = takeWhile (\<lambda>c. c \<noteq> CHR '' '') query
      in if pre \<noteq> [] \<and> length pre < length query then pre else query)"

definition newClientSpanFromContext :: "string \<Rightarrow> world \<Rightarrow> world" where
  "newClientSpanFromContext query w = emit (SpanStart (operationName query) query) w"

text \<open>
  \<^verbatim>\<open>if enableTrace { span := ...; defer span.Finish() }\<close> around the rest of a method.
\<close>

definition traced :: "bool \<Rightarrow> string \<Rightarrow> (world \<Rightarrow> 'a \<times> world) \<Rightarrow> world \<Rightarrow> 'a \<times> world" where
  "traced enable label body w =
     (if enable then
        (case body (newClientSpanFromContext label w) of (r, w') \<Rightarrow> (r, emit SpanFinish w'))
      else body w)"

subsection \<open>The handles\<close>

text \<open>
  Modelled from the spec: \<^verbatim>\<open>IMapper\<close> is declared outside \<^verbatim>\<open>db.go\<close>; the spec has a
  snake-case mapping strategy and a memoizing decorator. The handles only carry the mapper.
\<close>

datatype IMapper = SnakeMapper | CacheMapper IMapper

record DB =
  sqlDB :: sql_DB
  DB_Mapper :: IMapper
  DB_enableTrace :: bool

record Stmt =
  sqlStmt :: sql_Stmt
  Stmt_Mapper :: IMapper
  Stmt_names :: nat
  Stmt_enableTrace :: bool

record Tx =
  sqlTx :: sql_Tx
  Tx_Mapper :: IMapper
  Tx_enableTrace :: bool

record Rows =
  sqlRows :: sql_Rows
  Rows_Mapper :: IMapper

record Row =
  Row_rows :: "Rows option"
  Row_err :: "go_error option"

subsection \<open>\<^verbatim>\<open>DB\<close>\<close>

definition DB_Query ::
  "DB \<Rightarrow> string \<Rightarrow> scalar list \<Rightarrow> world \<Rightarrow> (go_error + Rows) \<times> world" where
  "DB_Query db query args =
     traced (DB_enableTrace db) query (\<lambda>w.
       (case DB_QueryContext (sqlDB db) query args of
          Inl e \<Rightarrow> Inl e
        | Inr rows \<Rightarrow> Inr \<lparr>sqlRows = rows, Rows_Mapper = DB_Mapper db\<rparr>,
        emit (QueryContext query args) w))"

definition DB_Exec ::
  "DB \<Rightarrow> string \<Rightarrow> scalar list \<Rightarrow> world \<Rightarrow> (go_error + sql_Result) \<times> world" where
  "DB_Exec db query args =
     traced (DB_enableTrace db) query (\<lambda>w.
       (DB_ExecContext (sqlDB db) query args, emit (ExecContext query args) w))"

definition DB_QueryMap ::
  "DB \<Rightarrow> string \<Rightarrow> go_arg \<Rightarrow> world \<Rightarrow> panic + (go_error + Rows) \<times> world" where
  "DB_QueryMap db query mp w =
     (case MapToSlice query mp of
        Inl p \<Rightarrow> Inl p
      | Inr (query', args, Some e) \<Rightarrow> Inr (Inl e, w)
      | Inr (query', args, None) \<Rightarrow> Inr (DB_Query db query' args w))"

definition DB_QueryStruct ::
  "DB \<Rightarrow> string \<Rightarrow> go_arg \<Rightarrow> world \<Rightarrow> panic + (go_error + Rows) \<times> world" where
  "DB_QueryStruct db query st w =
     (case StructToSlice query st of
        Inl p \<Rightarrow> Inl p
      | Inr (query', args, Some e) \<Rightarrow> Inr (Inl e, w)
      | Inr (query', args, None) \<Rightarrow> Inr (DB_Query db query' args w))"

definition DB_QueryRow :: "DB \<Rightarrow> string \<Rightarrow> scalar list \<Rightarrow> world \<Rightarrow> Row \<times> world" where
  "DB_QueryRow db query args w =
     (case DB_Query db query args w of
        (Inl e, w') \<Rightarrow> (\<lparr>Row_rows = None, Row_err = Some e\<rparr>, w')
      | (Inr rows, w') \<Rightarrow> (\<lparr>Row_rows = Some rows, Row_err = None\<rparr>, w'))"

definition DB_QueryRowMap ::
  "DB \<Rightarrow> string \<Rightarrow> go_arg \<Rightarrow> world \<Rightarrow> panic + Row \<times> world" where
  "DB_QueryRowMap db query mp w =
     (case MapToSlice query mp of
        Inl p \<Rightarrow> Inl p
      | Inr (query', args, Some e) \<Rightarrow> Inr (\<lparr>Row_rows = None, Row_err = Some e\<rparr>, w)
      | Inr (query', args, None) \<Rightarrow> Inr (DB_QueryRow db query' args w))"

definition DB_QueryRowStruct ::
  "DB \<Rightarrow> string \<Rightarrow> go_arg \<Rightarrow> world \<Rightarrow> panic + Row \<times> world" where
  "DB_QueryRowStruct db query st w =
     (case StructToSlice query st of
        Inl p \<Rightarrow> Inl p
      | Inr (query', args, Some e) \<Rightarrow> Inr (\<lparr>Row_rows = None, Row_err = Some e\<rparr>, w)
      | Inr (query', args, None) \<Rightarrow> Inr (DB_QueryRow db query' args w))"

definition DB_ExecMap ::
  "DB \<Rightarrow> string \<Rightarrow> go_arg \<Rightarrow> world \<Rightarrow> panic + (go_error + sql_Result) \<times> world" where
  "DB_ExecMap db query mp w =
     (case MapToSlice query mp of
        Inl p \<Rightarrow> Inl p
      | Inr (query', args, Some e) \<Rightarrow> Inr (Inl e, w)
      | Inr (query', args, None) \<Rightarrow> Inr (DB_Exec db query' args w))"

definition DB_ExecStruct ::
  "DB \<Rightarrow> string \<Rightarrow> go_arg \<Rightarrow> world \<Rightarrow> panic + (go_error + sql_Result) \<times> world" where
  "DB_ExecStruct db query st w =
     (case StructToSlice query st of
        Inl p \<Rightarrow> Inl p
      | Inr (query', args, Some e) \<Rightarrow> Inr (Inl e, w)
      | Inr (query', args, None) \<Rightarrow> Inr (DB_Exec db query' args w))"

text \<open>
  The closure of \<^verbatim>\<open>Prepare\<close> captures the map \<^verbatim>\<open>names\<close> (through its reference \<open>a\<close>)
  and the counter \<^verbatim>\<open>i\<close>.
\<close>

definition Prepare_repl :: "nat \<Rightarrow> string \<Rightarrow> world \<times> nat \<Rightarrow> string \<times> world \<times> nat" where
  "Prepare_repl a src st = (case st of (w, i) \<Rightarrow> (''?'', map_assign a (tl src) i w, i + 1))"

definition DB_Prepare :: "DB \<Rightarrow> string \<Rightarrow> world \<Rightarrow> (go_error + Stmt) \<times> world" where
  "DB_Prepare db query w =
     (case make_map w of (names, w0) \<Rightarrow>
        (case ReplaceAllStringFunc (Prepare_repl names) query (w0, 0) of (query', w1, i) \<Rightarrow>
           traced (DB_enableTrace db) query' (\<lambda>w.
             (case DB_PrepareContext (sqlDB db) query' of
                Inl e \<Rightarrow> Inl e
              | Inr stmt \<Rightarrow>
                  Inr \<lparr>sqlStmt = stmt, Stmt_Mapper = DB_Mapper db, Stmt_names = names,
                       Stmt_enableTrace = DB_enableTrace db\<rparr>,
              emit (PrepareContext query') w)) w1))"

definition DB_BeginTx :: "DB \<Rightarrow> world \<Rightarrow> (go_error + Tx) \<times> world" where
  "DB_BeginTx db w =
     (case DB_Begin (sqlDB db) of
        Inl e \<Rightarrow> Inl e
      | Inr tx \<Rightarrow> Inr \<lparr>sqlTx = tx, Tx_Mapper = DB_Mapper db, Tx_enableTrace = DB_enableTrace db\<rparr>,
      emit Begin w)"

subsection \<open>\<^verbatim>\<open>Stmt\<close>\<close>

definition Stmt_Exec ::
  "Stmt \<Rightarrow> scalar list \<Rightarrow> world \<Rightarrow> (go_error + sql_Result) \<times> world" where
  "Stmt_Exec s args =
     traced (Stmt_enableTrace s) ''Stmt Exec'' (\<lambda>w.
       (Stmt_ExecContext (sqlStmt s) args, emit (StmtExecContext args) w))"

definition Stmt_Query ::
  "Stmt \<Rightarrow> scalar list \<Rightarrow> world \<Rightarrow> (go_error + Rows) \<times> world" where
  "Stmt_Query s args =
     traced (Stmt_enableTrace s) ''Stmt Query'' (\<lambda>w.
       (case Stmt_QueryContext (sqlStmt s) args of
          Inl e \<Rightarrow> Inl e
        | Inr rows \<Rightarrow> Inr \<lparr>sqlRows = rows, Rows_Mapper = Stmt_Mapper s\<rparr>,
        emit (StmtQueryContext args) w))"

definition Stmt_QueryRow :: "Stmt \<Rightarrow> scalar list \<Rightarrow> world \<Rightarrow> Row \<times> world" where
  "Stmt_QueryRow s args w =
     (case Stmt_Query s args w of
        (Inl e, w') \<Rightarrow> (\<lparr>Row_rows = None, Row_err = Some e\<rparr>, w')
      | (Inr rows, w') \<Rightarrow> (\<lparr>Row_rows = Some rows, Row_err = None\<rparr>, w'))"

text \<open>
  The loop \<^verbatim>\<open>for k, i := range s.names { args[i] = ... }\<close> of the six binding methods,
  over the entries in the order they are visited. The right-hand side is evaluated first
  (\<^verbatim>\<open>Interface()\<close> panics on the zero \<^verbatim>\<open>Value\<close>), then the store into \<^verbatim>\<open>args[i]\<close>
  panics when \<open>i\<close> is out of range.
\<close>

fun bind_names ::
  "(string \<Rightarrow> panic + scalar) \<Rightarrow> name_table \<Rightarrow> scalar list \<Rightarrow> panic + scalar list" where
  "bind_names look [] args = Inr args"
| "bind_names look ((k, i) # es) args =
     (case look k of
        Inl p \<Rightarrow> Inl p
      | Inr v \<Rightarrow> if i < length args then bind_names look es (args[i := v]) else Inl IndexOutOfRange)"

text \<open>\<^verbatim>\<open>vv.Elem().MapIndex(reflect.ValueOf(k)).Interface()\<close>\<close>

definition map_value :: "go_arg \<Rightarrow> string \<Rightarrow> panic + scalar" where
  "map_value vv k =
     (case MapIndex (Elem vv) k of
        Inl p \<Rightarrow> Inl p
      | Inr None \<Rightarrow> Inl InterfaceOnZeroValue
      | Inr (Some v) \<Rightarrow> Inr v)"

text \<open>\<^verbatim>\<open>vv.Elem().FieldByName(k).Interface()\<close>\<close>

definition field_value :: "go_arg \<Rightarrow> string \<Rightarrow> panic + scalar" where
  "field_value vv k =
     (case FieldByName_Interface (Elem vv) k of Inl p \<Rightarrow> Inl p | Inr f \<Rightarrow> Inr (raw f))"

text \<open>\<^verbatim>\<open>args := make([]interface{}, len(s.names))\<close> followed by the loop.\<close>

definition Stmt_args :: "(string \<Rightarrow> panic + scalar) \<Rightarrow> name_table \<Rightarrow> panic + scalar list" where
  "Stmt_args look names = bind_names look names (replicate (length names) VNil)"

definition Stmt_ExecMap ::
  "Stmt \<Rightarrow> go_arg \<Rightarrow> world \<Rightarrow> panic + (go_error + sql_Result) \<times> world" where
  "Stmt_ExecMap s mp w =
     (let vv = mp in
      if Kind vv \<noteq> reflect_Ptr \<or> Kind (Elem vv) \<noteq> reflect_Map
      then Inr (Inl (ErrorString ''mp should be a map's pointer''), w)
      else
        (case Stmt_args (map_value vv) (deref w (Stmt_names s)) of
           Inl p \<Rightarrow> Inl p
         | Inr args \<Rightarrow> Inr (Stmt_Exec s args w)))"

definition Stmt_ExecStruct ::
  "Stmt \<Rightarrow> go_arg \<Rightarrow> world \<Rightarrow> panic + (go_error + sql_Result) \<times> world" where
  "Stmt_ExecStruct s st w =
     (let vv = st in
      if Kind vv \<noteq> reflect_Ptr \<or> Kind (Elem vv) \<noteq> reflect_Struct
      then Inr (Inl (ErrorString ''mp should be a map's pointer''), w)
      else
        (case Stmt_args (field_value vv) (deref w (Stmt_names s)) of
           Inl p \<Rightarrow> Inl p
         | Inr args \<Rightarrow> Inr (Stmt_Exec s args w)))"

definition Stmt_QueryMap ::
  "Stmt \<Rightarrow> go_arg \<Rightarrow> world \<Rightarrow> panic + (go_error + Rows) \<times> world" where
  "Stmt_QueryMap s mp w =
     (let vv = mp in
      if Kind vv \<noteq> reflect_Ptr \<or> Kind (Elem vv) \<noteq> reflect_Map
      then Inr (Inl (ErrorString ''mp should be a map's pointer''), w)
      else
        (case Stmt_args (map_value vv) (deref w (Stmt_names s)) of
           Inl p \<Rightarrow> Inl p
         | Inr args \<Rightarrow> Inr (Stmt_Query s args w)))"

definition Stmt_QueryStruct ::
  "Stmt \<Rightarrow> go_arg \<Rightarrow> world \<Rightarrow> panic + (go_error + Rows) \<times> world" where
  "Stmt_QueryStruct s st w =
     (let vv = st in
      if Kind vv \<noteq> reflect_Ptr \<or> Kind (Elem vv) \<noteq> reflect_Struct
      then Inr (Inl (ErrorString ''mp should be a map's pointer''), w)
      else
        (case Stmt_args (field_value vv) (deref w (Stmt_names s)) of
           Inl p \<Rightarrow> Inl p
         | Inr args \<Rightarrow> Inr (Stmt_Query s args w)))"

definition Stmt_QueryRowMap :: "Stmt \<Rightarrow> go_arg \<Rightarrow> world \<Rightarrow> panic + Row \<times> world" where
  "Stmt_QueryRowMap s mp w =
     (let vv = mp in
      if Kind vv \<noteq> reflect_Ptr \<or> Kind (Elem vv) \<noteq> reflect_Map
      then Inr (\<lparr>Row_rows = None,
                 Row_err = Some (ErrorString ''mp should be a map's pointer'')\<rparr>, w)
      else
        (case Stmt_args (map_value vv) (deref w (Stmt_names s)) of
           Inl p \<Rightarrow> Inl p
         | Inr args \<Rightarrow> Inr (Stmt_QueryRow s args w)))"

definition Stmt_QueryRowStruct :: "Stmt \<Rightarrow> go_arg \<Rightarrow> world \<Rightarrow> panic + Row \<times> world" where
  "Stmt_QueryRowStruct s st w =
     (let vv = st in
      if Kind vv \<noteq> reflect_Ptr \<or> Kind (Elem vv) \<noteq> reflect_Struct
      then Inr (\<lparr>Row_rows = None,
                 Row_err = Some (ErrorString ''st should be a struct's pointer'')\<rparr>, w)
      else
        (case Stmt_args (field_value vv) (deref w (Stmt_names s)) of
           Inl p \<Rightarrow> Inl p
         | Inr args \<Rightarrow> Inr (Stmt_QueryRow s args w)))"

subsection \<open>\<^verbatim>\<open>Tx\<close>\<close>

definition Tx_Prepare :: "Tx \<Rightarrow> string \<Rightarrow> world \<Rightarrow> (go_error + Stmt) \<times> world" where
  "Tx_Prepare tx query w =
     (case make_map w of (names, w0) \<Rightarrow>
        (case ReplaceAllStringFunc (Prepare_repl names) query (w0, 0) of (query', w1, i) \<Rightarrow>
           traced (Tx_enableTrace tx) query' (\<lambda>w.
             (case Tx_PrepareContext (sqlTx tx) query' of
                Inl e \<Rightarrow> Inl e
              | Inr stmt \<Rightarrow>
                  Inr \<lparr>sqlStmt = stmt, Stmt_Mapper = Tx_Mapper tx, Stmt_names = names,
                       Stmt_enableTrace = Tx_enableTrace tx\<rparr>,
              emit (PrepareContext query') w)) w1))"

definition Tx_Stmt :: "Tx \<Rightarrow> Stmt \<Rightarrow> Stmt" where
  "Tx_Stmt tx stmt = stmt"

definition Tx_Exec ::
  "Tx \<Rightarrow> string \<Rightarrow> scalar list \<Rightarrow> world \<Rightarrow> (go_error + sql_Result) \<times> world" where
  "Tx_Exec tx query args =
     traced (Tx_enableTrace tx) query (\<lambda>w.
       (Tx_ExecContext (sqlTx tx) query args, emit (ExecContext query args) w))"

definition Tx_ExecMap ::
  "Tx \<Rightarrow> string \<Rightarrow> go_arg \<Rightarrow> world \<Rightarrow> panic + (go_error + sql_Result) \<times> world" where
  "Tx_ExecMap tx query mp w =
     (case MapToSlice query mp of
        Inl p \<Rightarrow> Inl p
      | Inr (query', args, Some e) \<Rightarrow> Inr (Inl e, w)
      | Inr (query', args, None) \<Rightarrow> Inr (Tx_Exec tx query' args w))"

definition Tx_ExecStruct ::
  "Tx \<Rightarrow> string \<Rightarrow> go_arg \<Rightarrow> world \<Rightarrow> panic + (go_error + sql_Result) \<times> world" where
  "Tx_ExecStruct tx query st w =
     (case StructToSlice query st of
        Inl p \<Rightarrow> Inl p
      | Inr (query', args, Some e) \<Rightarrow> Inr (Inl e, w)
      | Inr (query', args, None) \<Rightarrow> Inr (Tx_Exec tx query' args w))"

definition Tx_Query ::
  "Tx \<Rightarrow> string \<Rightarrow> scalar list \<Rightarrow> world \<Rightarrow> (go_error + Rows) \<times> world" where
  "Tx_Query tx query args =
     traced (Tx_enableTrace tx) query (\<lambda>w.
       (case Tx_QueryContext (sqlTx tx) query args of
          Inl e \<Rightarrow> Inl e
        | Inr rows \<Rightarrow> Inr \<lparr>sqlRows = rows, Rows_Mapper = Tx_Mapper tx\<rparr>,
        emit (QueryContext query args) w))"

definition Tx_QueryMap ::
  "Tx \<Rightarrow> string \<Rightarrow> go_arg \<Rightarrow> world \<Rightarrow> panic + (go_error + Rows) \<times> world" where
  "Tx_QueryMap tx query mp w =
     (case MapToSlice query mp of
        Inl p \<Rightarrow> Inl p
      | Inr (query', args, Some e) \<Rightarrow> Inr (Inl e, w)
      | Inr (query', args, None) \<Rightarrow> Inr (Tx_Query tx query' args w))"

definition Tx_QueryStruct ::
  "Tx \<Rightarrow> string \<Rightarrow> go_arg \<Rightarrow> world \<Rightarrow> panic + (go_error + Rows) \<times> world" where
  "Tx_QueryStruct tx query st w =
     (case StructToSlice query st of
        Inl p \<Rightarrow> Inl p
      | Inr (query', args, Some e) \<Rightarrow> Inr (Inl e, w)
      | Inr (query', args, None) \<Rightarrow> Inr (Tx_Query tx query' args w))"

definition Tx_QueryRow :: "Tx \<Rightarrow> string \<Rightarrow> scalar list \<Rightarrow> world \<Rightarrow> Row \<times> world" where
  "Tx_QueryRow tx query args w =
     (case Tx_Query tx query args w of
        (Inl e, w') \<Rightarrow> (\<lparr>Row_rows = None, Row_err = Some e\<rparr>, w')
      | (Inr rows, w') \<Rightarrow> (\<lparr>Row_rows = Some rows, Row_err = None\<rparr>, w'))"

definition Tx_QueryRowMap ::
  "Tx \<Rightarrow> string \<Rightarrow> go_arg \<Rightarrow> world \<Rightarrow> panic + Row \<times> world" where
  "Tx_QueryRowMap tx query mp w =
     (case MapToSlice query mp of
        Inl p \<Rightarrow> Inl p
      | Inr (query', args, Some e) \<Rightarrow> Inr (\<lparr>Row_rows = None, Row_err = Some e\<rparr>, w)
      | Inr (query', args, None) \<Rightarrow> Inr (Tx_QueryRow tx query' args w))"

definition Tx_QueryRowStruct ::
  "Tx \<Rightarrow> string \<Rightarrow> go_arg \<Rightarrow> world \<Rightarrow> panic + Row \<times> world" where
  "Tx_QueryRowStruct tx query st w =
     (case StructToSlice query st of
        Inl p \<Rightarrow> Inl p
      | Inr (query', args, Some e) \<Rightarrow> Inr (\<lparr>Row_rows = None, Row_err = Some e\<rparr>, w)
      | Inr (query', args, None) \<Rightarrow> Inr (Tx_QueryRow tx query' args w))"

subsection \<open>The name table of a template\<close>

text \<open>
  What the closure of \<^verbatim>\<open>Prepare\<close> leaves in \<^verbatim>\<open>names\<close>: the names are entered from
  left to right, the counter starting at \<open>i\<close>, and a repeated name overwrites its entry.
\<close>

fun assign_ordinals :: "nat \<Rightarrow> string list \<Rightarrow> name_table \<Rightarrow> name_table" where
  "assign_ordinals i [] t = t"
| "assign_ordinals i (n # ns) t = assign_ordinals (Suc i) ns (AList.update n i t)"

definition name_table_of :: "string \<Rightarrow> name_table" where
  "name_table_of query = assign_ordinals 0 (placeholders query) []"

subsection \<open>What \<^verbatim>\<open>StructToSlice\<close> does with a field\<close>

text \<open>
  The effect of one call of the closure of \<^verbatim>\<open>StructToSlice\<close> on a readable field, in
  two parts: the values it appends to \<^verbatim>\<open>args\<close>, and the value of \<^verbatim>\<open>err\<close> after it.
\<close>

fun appended :: "field \<Rightarrow> scalar list" where
  "appended (Plain fv) = [fv]"
| "appended (Valuer v (Inr val)) = [val]"
| "appended (Valuer v (Inl e)) = []"

fun err_after :: "field \<Rightarrow> go_error option \<Rightarrow> go_error option" where
  "err_after (Plain fv) err = err"
| "err_after (Valuer v (Inr val)) err = None"
| "err_after (Valuer v (Inl e)) err = Some e"

subsection \<open>A driver that accepts every call\<close>

text \<open>Concrete handles, for evaluating the operations on concrete inputs.\<close>

definition ok_Stmt :: sql_Stmt where
  "ok_Stmt = \<lparr>Stmt_ExecContext = (\<lambda>args. Inr (Result 1)),
              Stmt_QueryContext = (\<lambda>args. Inr (Cursor 1))\<rparr>"

definition ok_Tx :: sql_Tx where
  "ok_Tx = \<lparr>Tx_ExecContext = (\<lambda>query args. Inr (Result 1)),
            Tx_QueryContext = (\<lambda>query args. Inr (Cursor 1)),
            Tx_PrepareContext = (\<lambda>query. Inr ok_Stmt)\<rparr>"

definition ok_DB :: sql_DB where
  "ok_DB = \<lparr>DB_ExecContext = (\<lambda>query args. Inr (Result 1)),
            DB_QueryContext = (\<lambda>query args. Inr (Cursor 1)),
            DB_PrepareContext = (\<lambda>query. Inr ok_Stmt),
            DB_Begin = Inr ok_Tx\<rparr>"

definition demo_db :: DB where
  "demo_db = \<lparr>sqlDB = ok_DB, DB_Mapper = CacheMapper SnakeMapper, DB_enableTrace = False\<rparr>"

definition demo_tx :: Tx where
  "demo_tx = \<lparr>sqlTx = ok_Tx, Tx_Mapper = CacheMapper SnakeMapper, Tx_enableTrace = False\<rparr>"

definition demo_stmt :: Stmt where
  "demo_stmt = \<lparr>sqlStmt = ok_Stmt, Stmt_Mapper = CacheMapper SnakeMapper, Stmt_names = 0,
                Stmt_enableTrace = False\<rparr>"

definition world0 :: world where
  "world0 = \<lparr>heap = [], trace = []\<rparr>"

section \<open>Properties\<close>

subsection \<open>The rewriter\<close>

lemma takeWhile_nonempty_iff: "takeWhile P xs \<noteq> [] \<longleftrightarrow> (xs \<noteq> [] \<and> P (hd xs))"
  by (cases xs) auto

lemma takeWhile_cut: "\<not> P y \<Longrightarrow> takeWhile P (xs @ y # ys) = takeWhile P xs"
  by (induction xs) auto

lemma dropWhile_cut: "\<not> P y \<Longrightarrow> dropWhile P (xs @ y # ys) = dropWhile P xs @ y # ys"
  by (induction xs) auto

lemma ReplaceAllStringFunc_Cons:
  "ReplaceAllStringFunc repl (c # cs) st =
     (if c = CHR ''?'' \<and> takeWhile is_word cs \<noteq> [] then
        (fst (repl (c # takeWhile is_word cs) st) @
           fst (ReplaceAllStringFunc repl (dropWhile is_word cs)
                  (snd (repl (c # takeWhile is_word cs) st))),
         snd (ReplaceAllStringFunc repl (dropWhile is_word cs)
                  (snd (repl (c # takeWhile is_word cs) st))))
      else (c # fst (ReplaceAllStringFunc repl cs st), snd (ReplaceAllStringFunc repl cs st)))"
  by (simp add: case_prod_beta)

lemma ReplaceAllStringFunc_snd:
  "snd (ReplaceAllStringFunc repl s st) = fold (\<lambda>m st. snd (repl m st)) (FindAllString s) st"
  by (induction s arbitrary: st rule: FindAllString.induct)
     (simp_all add: ReplaceAllStringFunc_Cons del: ReplaceAllStringFunc.simps(2))

lemma ReplaceAllStringFunc_fst:
  "(\<And>m st. fst (repl m st) = ''?'') \<Longrightarrow>
     fst (ReplaceAllStringFunc repl s st) = rewritten s"
  unfolding rewritten_def
  by (induction s arbitrary: st rule: FindAllString.induct)
     (simp_all add: ReplaceAllStringFunc_Cons del: ReplaceAllStringFunc.simps(2))

lemma not_word_question: "\<not> is_word CHR ''?''"
  by (simp add: is_word_def)

lemma ReplaceAllStringFunc_cut:
  "\<not> is_word y \<Longrightarrow>
   ReplaceAllStringFunc repl (pre @ y # tail) st =
     (fst (ReplaceAllStringFunc repl pre st) @
        fst (ReplaceAllStringFunc repl (y # tail) (snd (ReplaceAllStringFunc repl pre st))),
      snd (ReplaceAllStringFunc repl (y # tail) (snd (ReplaceAllStringFunc repl pre st))))"
proof (induction pre arbitrary: st rule: FindAllString.induct)
  case 1
  show ?case by simp
next
  case (2 c cs)
  note unfold_long = ReplaceAllStringFunc_Cons[of repl c "cs @ y # tail" st]
  note unfold_short = ReplaceAllStringFunc_Cons[where cs = cs and st = st]
  have tw: "takeWhile is_word (cs @ y # tail) = takeWhile is_word cs"
    using "2.prems" by (rule takeWhile_cut)
  have dw: "dropWhile is_word (cs @ y # tail) = dropWhile is_word cs @ y # tail"
    using "2.prems" by (rule dropWhile_cut)
  show ?case
  proof (cases "c = CHR ''?'' \<and> takeWhile is_word cs \<noteq> []")
    case True
    have "ReplaceAllStringFunc repl ((c # cs) @ y # tail) st =
            ReplaceAllStringFunc repl (c # cs @ y # tail) st" by simp
    also note unfold_long
    finally show ?thesis
      using True "2.IH"(1)[OF True "2.prems"] by (simp add: tw dw unfold_short del: ReplaceAllStringFunc.simps)
  next
    case False
    have "ReplaceAllStringFunc repl ((c # cs) @ y # tail) st =
            ReplaceAllStringFunc repl (c # cs @ y # tail) st" by simp
    also note unfold_long
    finally show ?thesis
      using False "2.IH"(2)[OF False "2.prems"]
      by (auto simp add: tw dw unfold_short simp del: ReplaceAllStringFunc.simps)
  qed
qed

lemma FindAllString_empty_iff: "FindAllString s = [] \<longleftrightarrow> \<not> has_token s"
proof (induction s rule: has_token.induct)
  case (1 c d cs)
  then show ?case by (auto simp: takeWhile_nonempty_iff)
qed (auto)

lemma has_token_iff:
  "has_token s \<longleftrightarrow> (\<exists>i. Suc i < length s \<and> s ! i = CHR ''?'' \<and> is_word (s ! Suc i))"
proof (induction s rule: has_token.induct)
  case (1 c d cs)
  show ?case
  proof
    assume "has_token (c # d # cs)"
    then consider "c = CHR ''?'' \<and> is_word d" | "has_token (d # cs)" by auto
    then show "\<exists>i. Suc i < length (c # d # cs) \<and> (c # d # cs) ! i = CHR ''?'' \<and>
                   is_word ((c # d # cs) ! Suc i)"
    proof cases
      case 1
      then have "Suc 0 < length (c # d # cs) \<and> (c # d # cs) ! 0 = CHR ''?'' \<and>
                 is_word ((c # d # cs) ! Suc 0)" by simp
      then show ?thesis by blast
    next
      case 2
      with "1.IH" obtain i where "Suc i < length (d # cs)" "(d # cs) ! i = CHR ''?''"
        "is_word ((d # cs) ! Suc i)" by blast
      then have "Suc (Suc i) < length (c # d # cs) \<and> (c # d # cs) ! Suc i = CHR ''?'' \<and>
                 is_word ((c # d # cs) ! Suc (Suc i))" by simp
      then show ?thesis by blast
    qed
  next
    assume "\<exists>i. Suc i < length (c # d # cs) \<and> (c # d # cs) ! i = CHR ''?'' \<and>
                   is_word ((c # d # cs) ! Suc i)"
    then obtain i where i: "Suc i < length (c # d # cs)" "(c # d # cs) ! i = CHR ''?''"
        "is_word ((c # d # cs) ! Suc i)" by blast
    show "has_token (c # d # cs)"
    proof (cases i)
      case 0
      with i show ?thesis by simp
    next
      case (Suc j)
      with i have "Suc j < length (d # cs) \<and> (d # cs) ! j = CHR ''?'' \<and> is_word ((d # cs) ! Suc j)"
        by simp
      with "1.IH" show ?thesis by auto
    qed
  qed
qed simp_all

subsection \<open>\<^verbatim>\<open>Prepare\<close>\<close>

lemma Prepare_fold:
  "a < length (heap w) \<Longrightarrow>
   fold (\<lambda>m st. snd (Prepare_repl a m st)) ms (w, i) =
     (w\<lparr>heap := (heap w)[a := assign_ordinals i (map tl ms) (heap w ! a)]\<rparr>, i + length ms)"
proof (induction ms arbitrary: w i)
  case Nil
  show ?case by simp
next
  case (Cons m ms)
  have step: "snd (Prepare_repl a m (w, i)) = (map_assign a (tl m) i w, Suc i)"
    by (simp add: Prepare_repl_def)
  have len: "a < length (heap (map_assign a (tl m) i w))"
    using Cons.prems by (simp add: map_assign_def)
  show ?case
    using Cons.prems by (simp add: step Cons.IH[OF len]) (simp add: map_assign_def deref_def)
qed

lemma Prepare_rewrite:
  "ReplaceAllStringFunc (Prepare_repl (length (heap w))) query (snd (make_map w), 0) =
     (rewritten query, w\<lparr>heap := heap w @ [name_table_of query]\<rparr>,
      length (placeholders query))"
proof -
  let ?a = "length (heap w)"
  let ?w0 = "snd (make_map w)"
  have a: "?a < length (heap ?w0)" by (simp add: make_map_def)
  have "fst (ReplaceAllStringFunc (Prepare_repl ?a) query (?w0, 0)) = rewritten query"
    by (rule ReplaceAllStringFunc_fst) (simp add: Prepare_repl_def split: prod.splits)
  moreover have "snd (ReplaceAllStringFunc (Prepare_repl ?a) query (?w0, 0)) =
      (w\<lparr>heap := heap w @ [name_table_of query]\<rparr>, length (placeholders query))"
    unfolding ReplaceAllStringFunc_snd Prepare_fold[OF a]
    by (simp add: make_map_def name_table_of_def placeholders_def)
  ultimately show ?thesis by (simp add: prod_eq_iff)
qed

lemma DB_Prepare_eq:
  "DB_Prepare db query w =
     traced (DB_enableTrace db) (rewritten query) (\<lambda>w'.
       (case DB_PrepareContext (sqlDB db) (rewritten query) of
          Inl e \<Rightarrow> Inl e
        | Inr stmt \<Rightarrow>
            Inr \<lparr>sqlStmt = stmt, Stmt_Mapper = DB_Mapper db, Stmt_names = length (heap w),
                 Stmt_enableTrace = DB_enableTrace db\<rparr>,
        emit (PrepareContext (rewritten query)) w'))
       (w\<lparr>heap := heap w @ [name_table_of query]\<rparr>)"
  using Prepare_rewrite[of w query] by (simp add: DB_Prepare_def make_map_def)

lemma Tx_Prepare_eq:
  "Tx_Prepare tx query w =
     traced (Tx_enableTrace tx) (rewritten query) (\<lambda>w'.
       (case Tx_PrepareContext (sqlTx tx) (rewritten query) of
          Inl e \<Rightarrow> Inl e
        | Inr stmt \<Rightarrow>
            Inr \<lparr>sqlStmt = stmt, Stmt_Mapper = Tx_Mapper tx, Stmt_names = length (heap w),
                 Stmt_enableTrace = Tx_enableTrace tx\<rparr>,
        emit (PrepareContext (rewritten query)) w'))
       (w\<lparr>heap := heap w @ [name_table_of query]\<rparr>)"
  using Prepare_rewrite[of w query] by (simp add: Tx_Prepare_def make_map_def)

lemma DB_Prepare_heap: "heap (snd (DB_Prepare db query w)) = heap w @ [name_table_of query]"
  unfolding DB_Prepare_eq by (simp add: traced_def newClientSpanFromContext_def emit_def)

lemma Tx_Prepare_heap: "heap (snd (Tx_Prepare tx query w)) = heap w @ [name_table_of query]"
  unfolding Tx_Prepare_eq by (simp add: traced_def newClientSpanFromContext_def emit_def)

lemma DB_Prepare_fst:
  "fst (DB_Prepare db query w) =
     (case DB_PrepareContext (sqlDB db) (rewritten query) of
        Inl e \<Rightarrow> Inl e
      | Inr stmt \<Rightarrow>
          Inr \<lparr>sqlStmt = stmt, Stmt_Mapper = DB_Mapper db, Stmt_names = length (heap w),
               Stmt_enableTrace = DB_enableTrace db\<rparr>)"
  unfolding DB_Prepare_eq by (simp add: traced_def split: prod.splits)

lemma Tx_Prepare_fst:
  "fst (Tx_Prepare tx query w) =
     (case Tx_PrepareContext (sqlTx tx) (rewritten query) of
        Inl e \<Rightarrow> Inl e
      | Inr stmt \<Rightarrow>
          Inr \<lparr>sqlStmt = stmt, Stmt_Mapper = Tx_Mapper tx, Stmt_names = length (heap w),
               Stmt_enableTrace = Tx_enableTrace tx\<rparr>)"
  unfolding Tx_Prepare_eq by (simp add: traced_def split: prod.splits)

lemma DB_Prepare_trace:
  "trace (snd (DB_Prepare db query w)) =
     trace w @
       (if DB_enableTrace db
        then [SpanStart (operationName (rewritten query)) (rewritten query),
              PrepareContext (rewritten query), SpanFinish]
        else [PrepareContext (rewritten query)])"
  unfolding DB_Prepare_eq by (simp add: traced_def newClientSpanFromContext_def emit_def)

lemma Tx_Prepare_trace:
  "trace (snd (Tx_Prepare tx query w)) =
     trace w @
       (if Tx_enableTrace tx
        then [SpanStart (operationName (rewritten query)) (rewritten query),
              PrepareContext (rewritten query), SpanFinish]
        else [PrepareContext (rewritten query)])"
  unfolding Tx_Prepare_eq by (simp add: traced_def newClientSpanFromContext_def emit_def)

subsection \<open>\<^verbatim>\<open>MapToSlice\<close>\<close>

lemma MapToSlice_repl_step:
  "snd (MapToSlice_repl (Ptr (Some (MapV m))) src (Inr (args, err))) =
     (if m (tl src) = None then Inr (args, Some (missing_key (tl src)))
      else Inr (args @ [the (m (tl src))], err))"
  by (auto simp: MapToSlice_repl_def)

lemma MapToSlice_fold:
  "fold (\<lambda>src st. snd (MapToSlice_repl (Ptr (Some (MapV m))) src st)) ms (Inr (args, err)) =
     Inr (args @ map (\<lambda>src. the (m (tl src))) (filter (\<lambda>src. m (tl src) \<noteq> None) ms),
          (case filter (\<lambda>src. m (tl src) = None) ms of
             [] \<Rightarrow> err
           | x # xs \<Rightarrow> Some (missing_key (tl (last (x # xs))))))"
proof (induction ms arbitrary: args err)
  case Nil
  show ?case by simp
next
  case (Cons src ms)
  show ?case
    by (simp add: MapToSlice_repl_step Cons.IH split: list.splits)
qed

lemma MapToSlice_result:
  "Kind vv = reflect_Ptr \<Longrightarrow> Kind (Elem vv) = reflect_Map \<Longrightarrow>
   MapToSlice query vv =
     (case snd (ReplaceAllStringFunc (MapToSlice_repl vv) query (Inr ([], None))) of
        Inl p \<Rightarrow> Inl p
      | Inr (args, err) \<Rightarrow> Inr (rewritten query, args, err))"
proof -
  have "fst (ReplaceAllStringFunc (MapToSlice_repl vv) query (Inr ([], None))) = rewritten query"
    by (rule ReplaceAllStringFunc_fst)
       (simp add: MapToSlice_repl_def split: sum.splits prod.splits option.splits)
  then show "Kind vv = reflect_Ptr \<Longrightarrow> Kind (Elem vv) = reflect_Map \<Longrightarrow> ?thesis"
    by (auto simp add: MapToSlice_def split: prod.splits sum.splits)
qed

lemma MapToSlice_eq:
  "MapToSlice query (Ptr (Some (MapV m))) =
     Inr (rewritten query,
          map (\<lambda>k. the (m k)) (filter (\<lambda>k. m k \<noteq> None) (placeholders query)),
          (case filter (\<lambda>k. m k = None) (placeholders query) of
             [] \<Rightarrow> None
           | x # xs \<Rightarrow> Some (missing_key (last (x # xs)))))"
proof -
  let ?vv = "Ptr (Some (MapV m))"
  have 2: "snd (ReplaceAllStringFunc (MapToSlice_repl ?vv) query (Inr ([], None))) =
     Inr (map (\<lambda>k. the (m k)) (filter (\<lambda>k. m k \<noteq> None) (placeholders query)),
          (case filter (\<lambda>k. m k = None) (placeholders query) of
             [] \<Rightarrow> None
           | x # xs \<Rightarrow> Some (missing_key (last (x # xs)))))"
    unfolding ReplaceAllStringFunc_snd MapToSlice_fold placeholders_def
    by (simp add: filter_map comp_def map_idI last_map split: list.splits)
  show ?thesis
    by (simp add: MapToSlice_result 2)
qed

lemma MapToSlice_repl_panicked:
  "fold (\<lambda>src st. snd (MapToSlice_repl vv src st)) ms (Inl p) = Inl p"
  by (induction ms) (simp_all add: MapToSlice_repl_def)

lemma MapToSlice_other_key:
  assumes "placeholders query \<noteq> []"
  shows "MapToSlice query (Ptr (Some MapOtherKey)) = Inl KeyNotAssignable"
proof -
  let ?vv = "Ptr (Some MapOtherKey)"
  from assms obtain src srcs where f: "FindAllString query = src # srcs"
    by (cases "FindAllString query") (auto simp: placeholders_def)
  have step: "snd (MapToSlice_repl ?vv src (Inr ([], None))) = Inl KeyNotAssignable"
    by (simp add: MapToSlice_repl_def)
  have "snd (ReplaceAllStringFunc (MapToSlice_repl ?vv) query (Inr ([], None))) =
          Inl KeyNotAssignable"
    unfolding ReplaceAllStringFunc_snd f by (simp add: step MapToSlice_repl_panicked)
  then show ?thesis
    by (simp add: MapToSlice_result)
qed

subsection \<open>Templates without a match\<close>

lemma ReplaceAllStringFunc_no_match:
  "FindAllString s = [] \<Longrightarrow> ReplaceAllStringFunc repl s st = (s, st)"
  by (induction s arbitrary: st rule: FindAllString.induct)
     (auto simp add: ReplaceAllStringFunc_Cons simp del: ReplaceAllStringFunc.simps(2)
           split: if_splits)

lemma rewritten_no_token: "\<not> has_token query \<Longrightarrow> rewritten query = query"
  by (simp add: rewritten_def ReplaceAllStringFunc_no_match FindAllString_empty_iff)

lemma placeholders_no_token: "\<not> has_token query \<Longrightarrow> placeholders query = []"
  by (simp add: placeholders_def FindAllString_empty_iff)

lemma StructToSlice_no_token:
  "\<not> has_token query \<Longrightarrow> StructToSlice query (Ptr (Some (StructV fs))) = Inr (query, [], None)"
  by (simp add: StructToSlice_def ReplaceAllStringFunc_no_match FindAllString_empty_iff)

lemma MapToSlice_no_token:
  "\<not> has_token query \<Longrightarrow> MapToSlice query (Ptr (Some MapOtherKey)) = Inr (query, [], None)"
  by (simp add: MapToSlice_def ReplaceAllStringFunc_no_match FindAllString_empty_iff)

subsection \<open>Cutting a template at a byte that is not a word character\<close>

lemma FindAllString_cut:
  "\<not> is_word y \<Longrightarrow> FindAllString (pre @ y # tail) = FindAllString pre @ FindAllString (y # tail)"
proof (induction pre rule: FindAllString.induct)
  case 1
  show ?case by simp
next
  case (2 c cs)
  have tw: "takeWhile is_word (cs @ y # tail) = takeWhile is_word cs"
    using "2.prems" by (rule takeWhile_cut)
  have dw: "dropWhile is_word (cs @ y # tail) = dropWhile is_word cs @ y # tail"
    using "2.prems" by (rule dropWhile_cut)
  have long: "FindAllString ((c # cs) @ y # tail) =
     (if c = CHR ''?'' \<and> takeWhile is_word cs \<noteq> [] then
        (c # takeWhile is_word cs) # FindAllString (dropWhile is_word cs @ y # tail)
      else FindAllString (cs @ y # tail))"
    by (simp add: tw dw)
  show ?case
  proof (cases "c = CHR ''?'' \<and> takeWhile is_word cs \<noteq> []")
    case True
    then show ?thesis
      unfolding long using "2.IH"(1)[OF True "2.prems"] by simp
  next
    case False
    then show ?thesis
      unfolding long using "2.IH"(2)[OF False "2.prems"] by auto
  qed
qed

lemma FindAllString_shape:
  "src \<in> set (FindAllString s) \<Longrightarrow>
     \<exists>name. src = CHR ''?'' # name \<and> name \<noteq> [] \<and> (\<forall>c \<in> set name. is_word c)"
proof (induction s rule: FindAllString.induct)
  case 1
  then show ?case by simp
next
  case (2 c cs)
  then show ?case
    by (auto split: if_splits dest: set_takeWhileD)
qed

lemma bare_question_mark:
  assumes "tail = [] \<or> \<not> is_word (hd tail)"
  shows "ReplaceAllStringFunc repl (CHR ''?'' # tail) st =
           (CHR ''?'' # fst (ReplaceAllStringFunc repl tail st),
            snd (ReplaceAllStringFunc repl tail st))"
    and "FindAllString (CHR ''?'' # tail) = FindAllString tail"
  using assms by (auto simp: takeWhile_nonempty_iff ReplaceAllStringFunc_Cons
                       simp del: ReplaceAllStringFunc.simps(2))

subsection \<open>\<^verbatim>\<open>StructToSlice\<close> and panics\<close>

lemma StructToSlice_repl_panicked:
  "fold (\<lambda>src st. snd (StructToSlice_repl vv src st)) ms (Inl p) = Inl p"
  by (induction ms) (simp_all add: StructToSlice_repl_def)

lemma FieldByName_unexported:
  "\<not> exported name \<Longrightarrow> \<exists>p. FieldByName_Interface (StructV fs) name = Inl p"
  by (simp split: option.splits)

lemma StructToSlice_first_unexported:
  assumes "placeholders query = n # ns" and "\<not> exported n"
  shows "\<exists>p. StructToSlice query (Ptr (Some (StructV fs))) = Inl p"
proof -
  let ?vv = "Ptr (Some (StructV fs))"
  from assms(1) obtain src srcs where f: "FindAllString query = src # srcs" and n: "tl src = n"
    by (auto simp: placeholders_def)
  from FieldByName_unexported[OF assms(2)] obtain p
    where p: "FieldByName_Interface (StructV fs) n = Inl p" by blast
  have step: "snd (StructToSlice_repl ?vv src (Inr ([], None))) = Inl p"
    by (simp add: StructToSlice_repl_def n p del: FieldByName_Interface.simps)
  have "snd (ReplaceAllStringFunc (StructToSlice_repl ?vv) query (Inr ([], None))) = Inl p"
    unfolding ReplaceAllStringFunc_snd f by (simp add: step StructToSlice_repl_panicked)
  then have "StructToSlice query ?vv = Inl p"
    by (auto simp add: StructToSlice_def split: prod.splits)
  then show ?thesis by blast
qed

subsection \<open>The kind checks\<close>

lemma not_map_pointer_iff:
  "((\<forall>m. mp \<noteq> Ptr (Some (MapV m))) \<and> mp \<noteq> Ptr (Some MapOtherKey)) \<longleftrightarrow>
     (Kind mp \<noteq> reflect_Ptr \<or> Kind (Elem mp) \<noteq> reflect_Map)"
proof (cases mp)
  case (Ptr p)
  show ?thesis
  proof (cases p)
    case None
    with Ptr show ?thesis by simp
  next
    case (Some x)
    with Ptr show ?thesis by (cases x) simp_all
  qed
qed simp_all

lemma not_struct_pointer_iff:
  "(\<forall>fs. st \<noteq> Ptr (Some (StructV fs))) \<longleftrightarrow>
     (Kind st \<noteq> reflect_Ptr \<or> Kind (Elem st) \<noteq> reflect_Struct)"
proof (cases st)
  case (Ptr p)
  show ?thesis
  proof (cases p)
    case None
    with Ptr show ?thesis by simp
  next
    case (Some x)
    with Ptr show ?thesis by (cases x) simp_all
  qed
qed simp_all

lemma MapToSlice_invalid_kind:
  "(\<forall>m. mp \<noteq> Ptr (Some (MapV m))) \<and> mp \<noteq> Ptr (Some MapOtherKey) \<Longrightarrow>
     MapToSlice query mp = Inr ('''', [], Some ErrNoMapPointer)"
  unfolding not_map_pointer_iff by (simp add: MapToSlice_def)

lemma StructToSlice_invalid_kind:
  "\<forall>fs. st \<noteq> Ptr (Some (StructV fs)) \<Longrightarrow>
     StructToSlice query st = Inr ('''', [], Some ErrNoStructPointer)"
  unfolding not_struct_pointer_iff by (simp add: StructToSlice_def)

subsection \<open>Two tables in the store\<close>

lemma DB_Prepare_names:
  "fst (DB_Prepare db query w) = Inr s \<Longrightarrow> Stmt_names s = length (heap w)"
  by (auto simp: DB_Prepare_fst split: sum.splits)

lemma Tx_Prepare_names:
  "fst (Tx_Prepare tx query w) = Inr s \<Longrightarrow> Stmt_names s = length (heap w)"
  by (auto simp: Tx_Prepare_fst split: sum.splits)

lemma deref_two_tables:
  assumes "heap w2 = h @ [t1, t2]"
  shows "deref w2 (length h) = t1"
    and "deref w2 (Suc (length h)) = t2"
    and "deref (w2\<lparr>heap := (heap w2)[length h := t]\<rparr>) (Suc (length h)) = t2"
    and "deref (w2\<lparr>heap := (heap w2)[Suc (length h) := t]\<rparr>) (length h) = t1"
  using assms by (simp_all add: deref_def nth_append list_update_append)

lemma two_prepares:
  assumes n1: "n1 = length (heap w)" and n2: "n2 = Suc (length (heap w))"
      and h2: "heap w2 = heap w @ [T, T]"
      and tr: "trace w2 = trace w @
                 (if e1 then [SpanStart (operationName q) q, PrepareContext q, SpanFinish]
                  else [PrepareContext q]) @
                 (if e2 then [SpanStart (operationName q) q, PrepareContext q, SpanFinish]
                  else [PrepareContext q])"
  shows "deref w2 n1 = T \<and> deref w2 n2 = T \<and> n1 \<noteq> n2 \<and>
         filter is_driver_call (drop (length (trace w)) (trace w2)) =
           [PrepareContext q, PrepareContext q] \<and>
         (\<forall>t. deref (w2\<lparr>heap := (heap w2)[n1 := t]\<rparr>) n2 = deref w2 n2) \<and>
         (\<forall>t. deref (w2\<lparr>heap := (heap w2)[n2 := t]\<rparr>) n1 = deref w2 n1) \<and>
         (\<forall>k i. deref (map_assign n1 k i w2) n2 = deref w2 n2) \<and>
         (\<forall>k i. deref (map_assign n2 k i w2) n1 = deref w2 n1)"
proof -
  note d = deref_two_tables[OF h2]
  have m1: "\<And>k i. map_assign n1 k i w2 =
      w2\<lparr>heap := (heap w2)[length (heap w) := AList.update k i (deref w2 (length (heap w)))]\<rparr>"
    by (simp add: map_assign_def n1)
  have m2: "\<And>k i. map_assign n2 k i w2 =
      w2\<lparr>heap := (heap w2)[Suc (length (heap w)) :=
              AList.update k i (deref w2 (Suc (length (heap w))))]\<rparr>"
    by (simp add: map_assign_def n2)
  show ?thesis
    unfolding m1 m2 unfolding n1 n2 d by (simp add: tr)
qed

subsection \<open>\<^verbatim>\<open>StructToSlice\<close> on readable fields, and the loop of \<^verbatim>\<open>Stmt\<close>\<close>

lemma StructToSlice_repl_readable:
  "fs (tl src) = Some f \<Longrightarrow> exported (tl src) \<Longrightarrow>
   snd (StructToSlice_repl (Ptr (Some (StructV fs))) src (Inr (args, err))) =
     Inr (args @ appended f, err_after f err)"
  by (cases f rule: appended.cases) (simp_all add: StructToSlice_repl_def)

lemma StructToSlice_repl_unreadable:
  "fs (tl src) = None \<or> \<not> exported (tl src) \<Longrightarrow>
   \<exists>p. snd (StructToSlice_repl (Ptr (Some (StructV fs))) src st) = Inl p"
  by (cases st) (auto simp: StructToSlice_repl_def split: option.splits)

lemma StructToSlice_fold_readable:
  "\<forall>src \<in> set srcs. \<exists>f. fs (tl src) = Some f \<and> exported (tl src) \<Longrightarrow>
   fold (\<lambda>src st. snd (StructToSlice_repl (Ptr (Some (StructV fs))) src st)) srcs (Inr (args, err)) =
     Inr (args @ concat (map (\<lambda>src. appended (the (fs (tl src)))) srcs),
          fold (\<lambda>src. err_after (the (fs (tl src)))) srcs err)"
proof (induction srcs arbitrary: args err)
  case Nil
  show ?case by simp
next
  case (Cons src srcs)
  from Cons.prems obtain f where f: "fs (tl src) = Some f" "exported (tl src)" by auto
  from Cons.prems have rest: "\<forall>src \<in> set srcs. \<exists>f. fs (tl src) = Some f \<and> exported (tl src)"
    by simp
  show ?case
    by (simp add: StructToSlice_repl_readable[where fs = fs and src = src, OF f] Cons.IH[OF rest] f)
qed

lemma StructToSlice_fold_unreadable:
  "\<exists>src \<in> set srcs. fs (tl src) = None \<or> \<not> exported (tl src) \<Longrightarrow>
   \<exists>p. fold (\<lambda>src st. snd (StructToSlice_repl (Ptr (Some (StructV fs))) src st)) srcs st = Inl p"
proof (induction srcs arbitrary: st)
  case Nil
  then show ?case by simp
next
  case (Cons src srcs)
  show ?case
  proof (cases "fs (tl src) = None \<or> \<not> exported (tl src)")
    case True
    from StructToSlice_repl_unreadable[where fs = fs and src = src, OF True] obtain p
      where "snd (StructToSlice_repl (Ptr (Some (StructV fs))) src st) = Inl p" by blast
    then show ?thesis by (simp add: StructToSlice_repl_panicked)
  next
    case False
    with Cons.prems have "\<exists>src \<in> set srcs. fs (tl src) = None \<or> \<not> exported (tl src)" by auto
    from Cons.IH[OF this] show ?thesis by simp
  qed
qed

lemma StructToSlice_result:
  "StructToSlice query (Ptr (Some (StructV fs))) =
     (case snd (ReplaceAllStringFunc (StructToSlice_repl (Ptr (Some (StructV fs)))) query
                  (Inr ([], None))) of
        Inl p \<Rightarrow> Inl p
      | Inr (args, Some e) \<Rightarrow> Inr ('''', [], Some e)
      | Inr (args, None) \<Rightarrow> Inr (rewritten query, args, None))"
proof -
  have "fst (ReplaceAllStringFunc (StructToSlice_repl (Ptr (Some (StructV fs)))) query
               (Inr ([], None))) = rewritten query"
    by (rule ReplaceAllStringFunc_fst)
       (simp add: StructToSlice_repl_def split: sum.splits prod.splits field.splits)
  then show ?thesis
    by (auto simp add: StructToSlice_def split: prod.splits sum.splits option.splits)
qed

lemma StructToSlice_returns_readable:
  assumes "StructToSlice query (Ptr (Some (StructV fs))) = Inr r"
  shows "\<forall>n \<in> set (placeholders query). \<exists>f. fs n = Some f \<and> exported n"
proof (rule ccontr)
  assume "\<not> ?thesis"
  then have "\<exists>src \<in> set (FindAllString query). fs (tl src) = None \<or> \<not> exported (tl src)"
    by (auto simp: placeholders_def)
  from StructToSlice_fold_unreadable[OF this, of "Inr ([], None)"] assms show False
    by (auto simp: StructToSlice_result ReplaceAllStringFunc_snd)
qed

lemma StructToSlice_eq:
  assumes "\<forall>n \<in> set (placeholders query). \<exists>f. fs n = Some f \<and> exported n"
  shows "StructToSlice query (Ptr (Some (StructV fs))) =
           (case fold (\<lambda>n. err_after (the (fs n))) (placeholders query) None of
              Some e \<Rightarrow> Inr ('''', [], Some e)
            | None \<Rightarrow>
                Inr (rewritten query,
                     concat (map (\<lambda>n. appended (the (fs n))) (placeholders query)), None))"
proof -
  from assms have r: "\<forall>src \<in> set (FindAllString query). \<exists>f. fs (tl src) = Some f \<and> exported (tl src)"
    by (simp add: placeholders_def)
  have e: "fold (\<lambda>n. err_after (the (fs n))) (placeholders query) None =
           fold (\<lambda>src. err_after (the (fs (tl src)))) (FindAllString query) None"
    by (simp add: placeholders_def fold_map comp_def)
  have c: "concat (map (\<lambda>n. appended (the (fs n))) (placeholders query)) =
           concat (map (\<lambda>src. appended (the (fs (tl src)))) (FindAllString query))"
    by (simp add: placeholders_def comp_def)
  show ?thesis
    unfolding StructToSlice_result ReplaceAllStringFunc_snd StructToSlice_fold_readable[OF r] e c
    by (simp split: option.splits)
qed


lemma err_after_plain:
  "\<forall>n \<in> set ps. \<exists>fv. fs n = Some (Plain fv) \<Longrightarrow>
   fold (\<lambda>n. err_after (the (fs n))) ps err = err"
  by (induction ps arbitrary: err) auto

lemma length_concat_appended:
  "length (concat (map (\<lambda>n. appended (the (fs n))) ns)) \<le> length ns"
proof (induction ns)
  case Nil
  show ?case by simp
next
  case (Cons n ns)
  have "length (appended (the (fs n))) \<le> 1"
    by (cases "the (fs n)" rule: appended.cases) simp_all
  with Cons show ?case by simp
qed

lemma length_concat_appended_less:
  "n \<in> set ns \<Longrightarrow> fs n = Some (Valuer v (Inl e)) \<Longrightarrow>
   length (concat (map (\<lambda>n. appended (the (fs n))) ns)) < length ns"
proof (induction ns)
  case Nil
  then show ?case by simp
next
  case (Cons x ns)
  have le: "length (concat (map (\<lambda>n. appended (the (fs n))) ns)) \<le> length ns"
    by (rule length_concat_appended)
  have one: "length (appended (the (fs x))) \<le> 1"
    by (cases "the (fs x)" rule: appended.cases) simp_all
  show ?case
  proof (cases "x = n")
    case True
    with Cons.prems le show ?thesis by simp
  next
    case False
    with Cons have "length (concat (map (\<lambda>n. appended (the (fs n))) ns)) < length ns" by simp
    with one show ?thesis by simp
  qed
qed

lemma bind_names_panics:
  "(k, i) \<in> set es \<Longrightarrow> look k = Inl p \<Longrightarrow> \<exists>p'. bind_names look es args = Inl p'"
proof (induction es arbitrary: args)
  case Nil
  then show ?case by simp
next
  case (Cons x es)
  obtain k' i' where x: "x = (k', i')" by (cases x)
  show ?case
  proof (cases "x = (k, i)")
    case True
    with Cons.prems x show ?thesis by simp
  next
    case False
    with Cons.prems have "(k, i) \<in> set es" by simp
    from Cons.IH[OF this Cons.prems(2)] show ?thesis
      by (simp add: x split: sum.splits)
  qed
qed

lemma map_binding_missing_key:
  assumes "k \<in> set (placeholders query)" and "m k = None"
  shows "DB_ExecMap db query (Ptr (Some (MapV m))) w =
           Inr (Inl (missing_key (last (filter (\<lambda>n. m n = None) (placeholders query)))), w)"
    and "DB_QueryMap db query (Ptr (Some (MapV m))) w =
           Inr (Inl (missing_key (last (filter (\<lambda>n. m n = None) (placeholders query)))), w)"
    and "DB_QueryRowMap db query (Ptr (Some (MapV m))) w =
           Inr (\<lparr>Row_rows = None,
                 Row_err = Some (missing_key (last (filter (\<lambda>n. m n = None) (placeholders query))))\<rparr>,
                w)"
    and "Tx_ExecMap tx query (Ptr (Some (MapV m))) w =
           Inr (Inl (missing_key (last (filter (\<lambda>n. m n = None) (placeholders query)))), w)"
    and "Tx_QueryMap tx query (Ptr (Some (MapV m))) w =
           Inr (Inl (missing_key (last (filter (\<lambda>n. m n = None) (placeholders query)))), w)"
    and "Tx_QueryRowMap tx query (Ptr (Some (MapV m))) w =
           Inr (\<lparr>Row_rows = None,
                 Row_err = Some (missing_key (last (filter (\<lambda>n. m n = None) (placeholders query))))\<rparr>,
                w)"
proof -
  from assms have "filter (\<lambda>n. m n = None) (placeholders query) \<noteq> []"
    by (auto simp: filter_empty_conv)
  then have s: "MapToSlice query (Ptr (Some (MapV m))) =
           Inr (rewritten query,
                map (\<lambda>n. the (m n)) (filter (\<lambda>n. m n \<noteq> None) (placeholders query)),
                Some (missing_key (last (filter (\<lambda>n. m n = None) (placeholders query)))))"
    by (simp add: MapToSlice_eq split: list.splits)
  show "DB_ExecMap db query (Ptr (Some (MapV m))) w =
           Inr (Inl (missing_key (last (filter (\<lambda>n. m n = None) (placeholders query)))), w)"
    by (simp add: DB_ExecMap_def s)
  show "DB_QueryMap db query (Ptr (Some (MapV m))) w =
           Inr (Inl (missing_key (last (filter (\<lambda>n. m n = None) (placeholders query)))), w)"
    by (simp add: DB_QueryMap_def s)
  show "DB_QueryRowMap db query (Ptr (Some (MapV m))) w =
           Inr (\<lparr>Row_rows = None,
                 Row_err = Some (missing_key (last (filter (\<lambda>n. m n = None) (placeholders query))))\<rparr>,
                w)"
    by (simp add: DB_QueryRowMap_def s)
  show "Tx_ExecMap tx query (Ptr (Some (MapV m))) w =
           Inr (Inl (missing_key (last (filter (\<lambda>n. m n = None) (placeholders query)))), w)"
    by (simp add: Tx_ExecMap_def s)
  show "Tx_QueryMap tx query (Ptr (Some (MapV m))) w =
           Inr (Inl (missing_key (last (filter (\<lambda>n. m n = None) (placeholders query)))), w)"
    by (simp add: Tx_QueryMap_def s)
  show "Tx_QueryRowMap tx query (Ptr (Some (MapV m))) w =
           Inr (\<lparr>Row_rows = None,
                 Row_err = Some (missing_key (last (filter (\<lambda>n. m n = None) (placeholders query))))\<rparr>,
                w)"
    by (simp add: Tx_QueryRowMap_def s)
qed

subsection \<open>The binding loop of a prepared statement\<close>

text \<open>
  The loop of the \<^verbatim>\<open>Stmt\<close> methods over the name table of a template, the entries
  taken in any order \<open>es\<close>: when it ends without a panic, the placeholders are pairwise
  distinct, there is one argument per placeholder, and argument \<open>i\<close> is the value looked
  up for placeholder \<open>i\<close>. A template that repeats a name makes every such loop panic
  (the table has fewer entries than the largest ordinal needs).
\<close>

lemma bind_names_length:
  "bind_names look es args = Inr args' \<Longrightarrow> length args' = length args"
proof (induction es arbitrary: args)
  case Nil
  then show ?case by simp
next
  case (Cons x es)
  obtain k i where x: "x = (k, i)" by (cases x)
  from Cons.prems obtain v where "look k = Inr v" "i < length args"
      "bind_names look es (args[i := v]) = Inr args'"
    by (auto simp: x split: sum.splits if_splits)
  from Cons.IH[OF this(3)] show ?case by simp
qed

lemma bind_names_untouched:
  "bind_names look es args = Inr args' \<Longrightarrow> j \<notin> snd ` set es \<Longrightarrow> args' ! j = args ! j"
proof (induction es arbitrary: args)
  case Nil
  then show ?case by simp
next
  case (Cons x es)
  obtain k i where x: "x = (k, i)" by (cases x)
  from Cons.prems(1) obtain v where v: "look k = Inr v" "i < length args"
      "bind_names look es (args[i := v]) = Inr args'"
    by (auto simp: x split: sum.splits if_splits)
  from Cons.prems(2) have "j \<noteq> i" "j \<notin> snd ` set es" by (auto simp: x)
  with Cons.IH[OF v(3)] show ?case by simp
qed

lemma bind_names_entry:
  "bind_names look es args = Inr args' \<Longrightarrow> distinct (map snd es) \<Longrightarrow> (k, i) \<in> set es \<Longrightarrow>
     i < length args \<and> look k = Inr (args' ! i)"
proof (induction es arbitrary: args)
  case Nil
  then show ?case by simp
next
  case (Cons x es)
  obtain k' i' where x: "x = (k', i')" by (cases x)
  from Cons.prems(1) obtain v where v: "look k' = Inr v" "i' < length args"
      "bind_names look es (args[i' := v]) = Inr args'"
    by (auto simp: x split: sum.splits if_splits)
  from Cons.prems(2) have d: "distinct (map snd es)" "i' \<notin> snd ` set es" by (auto simp: x)
  show ?case
  proof (cases "(k, i) = (k', i')")
    case True
    from bind_names_untouched[OF v(3) d(2)] v True show ?thesis by simp
  next
    case False
    with Cons.prems(3) have "(k, i) \<in> set es" by (auto simp: x)
    from Cons.IH[OF v(3) d(1) this] show ?thesis by simp
  qed
qed


lemma bind_names_in_range:
  "bind_names look es args = Inr args' \<Longrightarrow> (k, i) \<in> set es \<Longrightarrow> i < length args"
proof (induction es arbitrary: args)
  case Nil
  then show ?case by simp
next
  case (Cons x es)
  obtain k' i' where x: "x = (k', i')" by (cases x)
  from Cons.prems(1) obtain v where v: "look k' = Inr v" "i' < length args"
      "bind_names look es (args[i' := v]) = Inr args'"
    by (auto simp: x split: sum.splits if_splits)
  show ?case
  proof (cases "(k, i) = (k', i')")
    case True
    with v show ?thesis by simp
  next
    case False
    with Cons.prems(2) have "(k, i) \<in> set es" by (auto simp: x)
    from Cons.IH[OF v(3) this] show ?thesis by simp
  qed
qed

lemma assign_ordinals_keys:
  "fst ` set (assign_ordinals j ns t) = set ns \<union> fst ` set t"
  by (induction ns arbitrary: j t) (auto simp: AList.dom_update)

lemma assign_ordinals_distinct:
  "distinct (map fst t) \<Longrightarrow> distinct (map fst (assign_ordinals j ns t))"
  by (induction ns arbitrary: j t) (simp_all add: AList.distinct_update)

lemma assign_ordinals_last:
  "ns \<noteq> [] \<Longrightarrow> (last ns, j + length ns - 1) \<in> set (assign_ordinals j ns t)"
proof (induction ns arbitrary: j t)
  case Nil
  then show ?case by simp
next
  case (Cons n ns)
  show ?case
  proof (cases "ns = []")
    case True
    have "map_of (AList.update n j t) n = Some j" by (simp add: AList.update_conv')
    then have "(n, j) \<in> set (AList.update n j t)" by (rule map_of_SomeD)
    with True show ?thesis by simp
  next
    case False
    from Cons.IH[OF False, of "Suc j" "AList.update n j t"] False show ?thesis by simp
  qed
qed

lemma update_fresh: "k \<notin> fst ` set al \<Longrightarrow> AList.update k v al = al @ [(k, v)]"
  by (induction al) auto

lemma assign_ordinals_distinct_names:
  "distinct ns \<Longrightarrow> set ns \<inter> fst ` set t = {} \<Longrightarrow>
   assign_ordinals j ns t = t @ zip ns [j ..< j + length ns]"
proof (induction ns arbitrary: j t)
  case Nil
  show ?case by simp
next
  case (Cons n ns)
  from Cons.prems have fresh: "n \<notin> fst ` set t" by auto
  from Cons.prems have d: "distinct ns" and
    disj: "set ns \<inter> fst ` set (t @ [(n, j)]) = {}" by auto
  have "[j ..< j + length (n # ns)] = j # [Suc j ..< Suc j + length ns]"
    by (subst upt_rec) simp
  then show ?case
    using Cons.IH[OF d disj, of "Suc j"] by (simp add: update_fresh[OF fresh])
qed

lemma name_table_length: "length (name_table_of query) = card (set (placeholders query))"
proof -
  have "distinct (map fst (name_table_of query))"
    unfolding name_table_of_def by (rule assign_ordinals_distinct) simp
  then have "length (name_table_of query) = card (fst ` set (name_table_of query))"
    by (metis distinct_card length_map set_map)
  then show ?thesis
    by (simp add: name_table_of_def assign_ordinals_keys)
qed

lemma Stmt_args_success:
  assumes ok: "Stmt_args look es = Inr args"
      and es: "set es = set (name_table_of query)" "length es = length (name_table_of query)"
  shows "distinct (placeholders query) \<and> length args = length (placeholders query) \<and>
         (\<forall>i < length args. look (placeholders query ! i) = Inr (args ! i))"
proof -
  let ?ns = "placeholders query"
  let ?T = "name_table_of query"
  from ok have b: "bind_names look es (replicate (length es) VNil) = Inr args"
    by (simp add: Stmt_args_def)
  from bind_names_length[OF b] have la: "length args = card (set ?ns)"
    by (simp add: es(2) name_table_length)
  have d: "distinct ?ns"
  proof (cases "?ns = []")
    case True
    then show ?thesis by simp
  next
    case False
    from assign_ordinals_last[OF False, of 0 "[]"] have "(last ?ns, length ?ns - 1) \<in> set es"
      by (simp add: es(1) name_table_of_def)
    from bind_names_in_range[OF b this] have "length ?ns - 1 < card (set ?ns)"
      by (simp add: es(2) name_table_length)
    moreover have "card (set ?ns) \<le> length ?ns" by (rule card_length)
    ultimately have "card (set ?ns) = length ?ns" using False by (cases ?ns) auto
    then show ?thesis by (rule card_distinct)
  qed
  from assign_ordinals_distinct_names[OF d, of "[]" 0]
  have T: "?T = zip ?ns [0 ..< length ?ns]" by (simp add: name_table_of_def)
  have sndT: "map snd ?T = [0 ..< length ?ns]" by (simp add: T)
  have dT: "distinct ?T" using sndT by (metis distinct_upt distinct_map)
  have "card (set es) = length es"
    using dT by (simp add: es distinct_card)
  then have des: "distinct es" by (rule card_distinct)
  have "inj_on snd (set ?T)"
    using sndT by (metis distinct_upt distinct_map)
  with des have dsnd: "distinct (map snd es)"
    by (simp add: distinct_map es(1))
  have len: "length args = length ?ns"
    using la d by (simp add: distinct_card)
  have "look (?ns ! i) = Inr (args ! i)" if "i < length args" for i
  proof -
    from that len have "(?ns ! i, i) \<in> set ?T"
      unfolding T by (auto simp: in_set_zip)
    then have "(?ns ! i, i) \<in> set es" by (simp add: es(1))
    from bind_names_entry[OF b dsnd this] show ?thesis by simp
  qed
  with d len show ?thesis by blast
qed

lemma Stmt_args_duplicate_panics:
  assumes "\<not> distinct (placeholders query)"
      and "set es = set (name_table_of query)" "length es = length (name_table_of query)"
  shows "\<exists>p. Stmt_args look es = Inl p"
proof (cases "Stmt_args look es")
  case (Inl p)
  then show ?thesis by blast
next
  case (Inr args)
  from Stmt_args_success[OF Inr assms(2) assms(3)] assms(1) show ?thesis by simp
qed

lemma StructToSlice_scenario:
  "StructToSlice ''insert into t (a,b) values (?X, ?Y)''
     (Ptr (Some (StructV [''X'' \<mapsto> Plain (VInt 1), ''Y'' \<mapsto> Plain (VStr ''s'')]))) =
     Inr (''insert into t (a,b) values (?, ?)'', [VInt 1, VStr ''s''], None)"
  by (simp add: StructToSlice_def StructToSlice_repl_def exported_def is_word_def)

section \<open>The claims\<close>

subsection \<open>The template \<^verbatim>\<open>?a ?b ?a\<close>\<close>

text \<open>
  C1, as claimed, includes \<^verbatim>\<open>StructToSlice\<close> among the places where the rewriter emits
  three markers for the placeholders \<^verbatim>\<open>?a\<close>, \<^verbatim>\<open>?b\<close>, \<^verbatim>\<open>?a\<close>. On a struct that has
  the fields \<^verbatim>\<open>a\<close> and \<^verbatim>\<open>b\<close>, \<^verbatim>\<open>StructToSlice\<close> panics at the first match instead:
  \<^verbatim>\<open>Interface()\<close> refuses a value read from an unexported (lower-case) field.
\<close>

theorem C1_StructToSlice_counterexample:
  "placeholders ''select ?a, ?b, ?a'' = [''a'', ''b'', ''a''] \<and>
   StructToSlice ''select ?a, ?b, ?a''
     (Ptr (Some (StructV [''a'' \<mapsto> Plain (VInt 1), ''b'' \<mapsto> Plain (VInt 2)]))) =
     Inl InterfaceOnUnexported"
  by (simp add: placeholders_def StructToSlice_def StructToSlice_repl_def exported_def is_word_def)

text \<open>
  C1, amended. Let the placeholders of a template be \<^verbatim>\<open>?a\<close>, \<^verbatim>\<open>?b\<close>, \<^verbatim>\<open>?a\<close>, in
  this order. The closure of \<^verbatim>\<open>Prepare\<close> is called three times: it leaves the counter
  at 3 (one marker per call) and the table \<open>a \<mapsto> 2, b \<mapsto> 1\<close> in the freshly made map,
  and the handle that \<^verbatim>\<open>DB.Prepare\<close> or \<^verbatim>\<open>Tx.Prepare\<close> returns refers to that table.
  \<^verbatim>\<open>MapToSlice\<close> returns the same rewritten template and, when the map has both keys,
  the three arguments; it keeps no name table. \<^verbatim>\<open>StructToSlice\<close> panics on every
  struct, since the field \<^verbatim>\<open>a\<close> is missing or unexported.
\<close>

theorem C1_a_b_a:
  assumes "placeholders query = [''a'', ''b'', ''a'']"
  shows "ReplaceAllStringFunc (Prepare_repl (length (heap w))) query (snd (make_map w), 0) =
           (rewritten query, w\<lparr>heap := heap w @ [[(''a'', 2), (''b'', 1)]]\<rparr>, 3) \<and>
         heap (snd (DB_Prepare db query w)) = heap w @ [[(''a'', 2), (''b'', 1)]] \<and>
         (\<forall>s. fst (DB_Prepare db query w) = Inr s \<longrightarrow>
                map_of (deref (snd (DB_Prepare db query w)) (Stmt_names s)) =
                  [''a'' \<mapsto> 2, ''b'' \<mapsto> 1]) \<and>
         heap (snd (Tx_Prepare tx query w)) = heap w @ [[(''a'', 2), (''b'', 1)]] \<and>
         (\<forall>s. fst (Tx_Prepare tx query w) = Inr s \<longrightarrow>
                map_of (deref (snd (Tx_Prepare tx query w)) (Stmt_names s)) =
                  [''a'' \<mapsto> 2, ''b'' \<mapsto> 1]) \<and>
         (\<exists>args err. MapToSlice query (Ptr (Some (MapV m))) = Inr (rewritten query, args, err)) \<and>
         (m ''a'' = Some va \<and> m ''b'' = Some vb \<longrightarrow>
            MapToSlice query (Ptr (Some (MapV m))) = Inr (rewritten query, [va, vb, va], None)) \<and>
         (\<exists>p. StructToSlice query (Ptr (Some (StructV fs))) = Inl p)"
proof -
  have t: "name_table_of query = [(''a'', 2), (''b'', 1)]"
    by (simp add: name_table_of_def assms)
  have 1: "ReplaceAllStringFunc (Prepare_repl (length (heap w))) query (snd (make_map w), 0) =
           (rewritten query, w\<lparr>heap := heap w @ [[(''a'', 2), (''b'', 1)]]\<rparr>, 3)"
    by (simp add: Prepare_rewrite t assms)
  have 2: "\<forall>s. fst (DB_Prepare db query w) = Inr s \<longrightarrow>
                map_of (deref (snd (DB_Prepare db query w)) (Stmt_names s)) =
                  [''a'' \<mapsto> 2, ''b'' \<mapsto> 1]"
    by (auto simp: DB_Prepare_fst DB_Prepare_heap deref_def t split: sum.splits)
  have 3: "\<forall>s. fst (Tx_Prepare tx query w) = Inr s \<longrightarrow>
                map_of (deref (snd (Tx_Prepare tx query w)) (Stmt_names s)) =
                  [''a'' \<mapsto> 2, ''b'' \<mapsto> 1]"
    by (auto simp: Tx_Prepare_fst Tx_Prepare_heap deref_def t split: sum.splits)
  have 4: "m ''a'' = Some va \<and> m ''b'' = Some vb \<longrightarrow>
            MapToSlice query (Ptr (Some (MapV m))) = Inr (rewritten query, [va, vb, va], None)"
    by (simp add: MapToSlice_eq assms)
  have 6: "\<exists>args err. MapToSlice query (Ptr (Some (MapV m))) = Inr (rewritten query, args, err)"
    by (simp add: MapToSlice_eq)
  have 5: "\<exists>p. StructToSlice query (Ptr (Some (StructV fs))) = Inl p"
    by (rule StructToSlice_first_unexported[OF assms]) (simp add: exported_def)
  show ?thesis
    using 1 2 3 4 5 6 by (simp add: DB_Prepare_heap Tx_Prepare_heap t)
qed

theorem C1_a_b_a_witness:
  "placeholders ''select ?a, ?b, ?a'' = [''a'', ''b'', ''a''] \<and>
   rewritten ''select ?a, ?b, ?a'' = ''select ?, ?, ?'' \<and>
   fst (DB_Prepare demo_db ''select ?a, ?b, ?a'' world0) = Inr demo_stmt \<and>
   deref (snd (DB_Prepare demo_db ''select ?a, ?b, ?a'' world0)) (Stmt_names demo_stmt) =
     [(''a'', 2), (''b'', 1)] \<and>
   MapToSlice ''select ?a, ?b, ?a'' (Ptr (Some (MapV [''a'' \<mapsto> VInt 7, ''b'' \<mapsto> VStr ''x'']))) =
     Inr (''select ?, ?, ?'', [VInt 7, VStr ''x'', VInt 7], None)"
proof -
  have p: "placeholders ''select ?a, ?b, ?a'' = [''a'', ''b'', ''a'']"
    by (simp add: placeholders_def is_word_def)
  have r: "rewritten ''select ?a, ?b, ?a'' = ''select ?, ?, ?''"
    by (simp add: rewritten_def is_word_def)
  have f: "fst (DB_Prepare demo_db ''select ?a, ?b, ?a'' world0) = Inr demo_stmt"
    by (simp add: DB_Prepare_fst demo_db_def ok_DB_def demo_stmt_def world0_def)
  note t = C1_a_b_a[OF p, of world0 demo_db demo_tx
             "[''a'' \<mapsto> VInt 7, ''b'' \<mapsto> VStr ''x'']" "VInt 7" "VStr ''x''" Map.empty]
  from t have h: "heap (snd (DB_Prepare demo_db ''select ?a, ?b, ?a'' world0)) =
      heap world0 @ [[(''a'', 2), (''b'', 1)]]" by blast
  from t have m: "MapToSlice ''select ?a, ?b, ?a''
      (Ptr (Some (MapV [''a'' \<mapsto> VInt 7, ''b'' \<mapsto> VStr ''x'']))) =
     Inr (rewritten ''select ?a, ?b, ?a'', [VInt 7, VStr ''x'', VInt 7], None)" by simp
  show ?thesis
    using p r f h m by (simp add: deref_def demo_stmt_def world0_def)
qed

subsection \<open>The length of the argument list\<close>

text \<open>
  C2. The claim is that a binding that succeeds yields as many arguments as the rewritten
  template has markers. \<^verbatim>\<open>StructToSlice\<close> breaks it: whenever it returns without an
  error although the conversion of some named field failed (a later \<^verbatim>\<open>Valuer\<close> reset
  the captured \<^verbatim>\<open>err\<close>), the query is the fully rewritten template and the argument
  list is shorter than the list of placeholders, since the failed field appended nothing.
  (For \<^verbatim>\<open>MapToSlice\<close> the claim holds by \<open>MapToSlice_eq\<close>.)
\<close>

theorem C2_success_with_short_argument_list:
  assumes "StructToSlice query (Ptr (Some (StructV fs))) = Inr (q', args, None)"
      and "n \<in> set (placeholders query)"
      and "fs n = Some (Valuer v (Inl e))"
  shows "q' = rewritten query \<and> length args < length (placeholders query)"
proof -
  note r = StructToSlice_returns_readable[OF assms(1)]
  from assms(1) have "q' = rewritten query \<and>
      args = concat (map (\<lambda>n. appended (the (fs n))) (placeholders query))"
    unfolding StructToSlice_eq[OF r] by (simp split: option.splits)
  with length_concat_appended_less[where fs = fs and n = n, OF assms(2) assms(3)]
  show ?thesis by simp
qed

theorem C2_success_with_short_argument_list_witness:
  "StructToSlice ''update t set a = ?A, b = ?B where id = ?Id''
     (Ptr (Some (StructV [''A'' \<mapsto> Valuer (VInt 1) (Inl (External ''bad'')),
                          ''B'' \<mapsto> Valuer (VInt 2) (Inr (VStr ''two'')),
                          ''Id'' \<mapsto> Plain (VInt 3)]))) =
     Inr (''update t set a = ?, b = ? where id = ?'', [VStr ''two'', VInt 3], None) \<and>
   placeholders ''update t set a = ?A, b = ?B where id = ?Id'' = [''A'', ''B'', ''Id''] \<and>
   length [VStr ''two'', VInt 3] < length (placeholders ''update t set a = ?A, b = ?B where id = ?Id'')"
proof -
  let ?q = "''update t set a = ?A, b = ?B where id = ?Id''"
  let ?fs = "[''A'' \<mapsto> Valuer (VInt 1) (Inl (External ''bad'')),
              ''B'' \<mapsto> Valuer (VInt 2) (Inr (VStr ''two'')),
              ''Id'' \<mapsto> Plain (VInt 3)]"
  have p: "placeholders ?q = [''A'', ''B'', ''Id'']"
    by (simp add: placeholders_def is_word_def)
  have s: "StructToSlice ?q (Ptr (Some (StructV ?fs))) =
     Inr (''update t set a = ?, b = ? where id = ?'', [VStr ''two'', VInt 3], None)"
    by (simp add: StructToSlice_def StructToSlice_repl_def exported_def is_word_def)
  have 2: "''A'' \<in> set (placeholders ?q)" by (simp add: p)
  have 3: "?fs ''A'' = Some (Valuer (VInt 1) (Inl (External ''bad'')))" by simp
  from C2_success_with_short_argument_list[where fs = ?fs and n = "''A''", OF s 2 3]
  have "length [VStr ''two'', VInt 3] < length (placeholders ?q)" by (elim conjE)
  with s p show ?thesis by (simp only:)
qed

subsection \<open>A prepared statement and a missing key\<close>

text \<open>
  C3. The claim is that binding a map that lacks a required key fails with an error
  naming the key, before any driver call. For the methods of \<^verbatim>\<open>DB\<close> and \<^verbatim>\<open>Tx\<close> this
  is \<open>map_binding_missing_key\<close>. The methods of \<^verbatim>\<open>Stmt\<close> do not check
  \<^verbatim>\<open>IsValid()\<close>: when the name table of the handle has an entry whose key the map lacks,
  \<^verbatim>\<open>ExecMap\<close>, \<^verbatim>\<open>QueryMap\<close> and \<^verbatim>\<open>QueryRowMap\<close> panic (in whatever order the entries
  are visited) and return no error value.
\<close>

theorem C3_Stmt_missing_key_panics:
  assumes "(k, i) \<in> set (deref w (Stmt_names s))" and "m k = None"
  shows "(\<exists>p. Stmt_ExecMap s (Ptr (Some (MapV m))) w = Inl p) \<and>
         (\<exists>p. Stmt_QueryMap s (Ptr (Some (MapV m))) w = Inl p) \<and>
         (\<exists>p. Stmt_QueryRowMap s (Ptr (Some (MapV m))) w = Inl p)"
proof -
  have "map_value (Ptr (Some (MapV m))) k = Inl InterfaceOnZeroValue"
    by (simp add: map_value_def assms(2))
  from bind_names_panics[where look = "map_value (Ptr (Some (MapV m)))" and k = k,
         OF assms(1) this]
  obtain p where "Stmt_args (map_value (Ptr (Some (MapV m)))) (deref w (Stmt_names s)) = Inl p"
    unfolding Stmt_args_def by blast
  then show ?thesis
    by (simp add: Stmt_ExecMap_def Stmt_QueryMap_def Stmt_QueryRowMap_def)
qed

theorem C3_Stmt_missing_key_panics_witness:
  "DB_Prepare demo_db ''select * from t where id = ?id'' world0 =
     (Inr demo_stmt, \<lparr>heap = [[(''id'', 0)]], trace = [PrepareContext ''select * from t where id = ?'']\<rparr>) \<and>
   (''id'', 0) \<in> set (deref \<lparr>heap = [[(''id'', 0)]],
                              trace = [PrepareContext ''select * from t where id = ?'']\<rparr>
                        (Stmt_names demo_stmt)) \<and>
   (\<exists>p. Stmt_ExecMap demo_stmt (Ptr (Some (MapV Map.empty)))
          \<lparr>heap = [[(''id'', 0)]], trace = [PrepareContext ''select * from t where id = ?'']\<rparr> = Inl p)"
proof -
  let ?q = "''select * from t where id = ?id''"
  let ?w = "\<lparr>heap = [[(''id'', 0)]], trace = [PrepareContext ''select * from t where id = ?'']\<rparr>"
  have r: "rewritten ?q = ''select * from t where id = ?''"
    by (simp add: rewritten_def is_word_def)
  have t: "name_table_of ?q = [(''id'', 0)]"
    by (simp add: name_table_of_def placeholders_def is_word_def)
  have 1: "DB_Prepare demo_db ?q world0 = (Inr demo_stmt, ?w)"
    unfolding DB_Prepare_eq r t
    by (simp add: demo_db_def ok_DB_def demo_stmt_def world0_def traced_def emit_def)
  have 2: "(''id'', 0) \<in> set (deref ?w (Stmt_names demo_stmt))"
    by (simp add: deref_def demo_stmt_def)
  have 3: "(Map.empty :: string \<rightharpoonup> scalar) ''id'' = None" by simp
  from C3_Stmt_missing_key_panics[where m = Map.empty, OF 2 3]
  have "\<exists>p. Stmt_ExecMap demo_stmt (Ptr (Some (MapV Map.empty))) ?w = Inl p" by (elim conjE)
  with 1 2 show ?thesis by (simp only:)
qed

subsection \<open>Arguments of the wrong kind\<close>

text \<open>
  C4. When \<^verbatim>\<open>mp\<close> is not a pointer to a map, \<^verbatim>\<open>MapToSlice\<close> returns
  \<^verbatim>\<open>ErrNoMapPointer\<close> with the empty query and no arguments, the map-binding methods of
  \<^verbatim>\<open>DB\<close> and \<^verbatim>\<open>Tx\<close> return that error, and those of \<^verbatim>\<open>Stmt\<close> return their own
  kind-check error. When \<^verbatim>\<open>st\<close> is not a pointer to a struct, the same holds of
  \<^verbatim>\<open>StructToSlice\<close> with \<^verbatim>\<open>ErrNoStructPointer\<close> and of the struct-binding methods. In
  every case the world is returned as it was: nothing was rewritten into the store, no
  span was opened and no driver call was made.
\<close>

theorem C4_invalid_argument_kind:
  "((\<forall>m. mp \<noteq> Ptr (Some (MapV m))) \<and> mp \<noteq> Ptr (Some MapOtherKey) \<longrightarrow>
      MapToSlice query mp = Inr ('''', [], Some ErrNoMapPointer) \<and>
      DB_QueryMap db query mp w = Inr (Inl ErrNoMapPointer, w) \<and>
      DB_QueryRowMap db query mp w =
        Inr (\<lparr>Row_rows = None, Row_err = Some ErrNoMapPointer\<rparr>, w) \<and>
      DB_ExecMap db query mp w = Inr (Inl ErrNoMapPointer, w) \<and>
      Tx_QueryMap tx query mp w = Inr (Inl ErrNoMapPointer, w) \<and>
      Tx_QueryRowMap tx query mp w =
        Inr (\<lparr>Row_rows = None, Row_err = Some ErrNoMapPointer\<rparr>, w) \<and>
      Tx_ExecMap tx query mp w = Inr (Inl ErrNoMapPointer, w) \<and>
      Stmt_ExecMap s mp w = Inr (Inl (ErrorString ''mp should be a map's pointer''), w) \<and>
      Stmt_QueryMap s mp w = Inr (Inl (ErrorString ''mp should be a map's pointer''), w) \<and>
      Stmt_QueryRowMap s mp w =
        Inr (\<lparr>Row_rows = None, Row_err = Some (ErrorString ''mp should be a map's pointer'')\<rparr>, w)) \<and>
   ((\<forall>fs. st \<noteq> Ptr (Some (StructV fs))) \<longrightarrow>
      StructToSlice query st = Inr ('''', [], Some ErrNoStructPointer) \<and>
      DB_QueryStruct db query st w = Inr (Inl ErrNoStructPointer, w) \<and>
      DB_QueryRowStruct db query st w =
        Inr (\<lparr>Row_rows = None, Row_err = Some ErrNoStructPointer\<rparr>, w) \<and>
      DB_ExecStruct db query st w = Inr (Inl ErrNoStructPointer, w) \<and>
      Tx_QueryStruct tx query st w = Inr (Inl ErrNoStructPointer, w) \<and>
      Tx_QueryRowStruct tx query st w =
        Inr (\<lparr>Row_rows = None, Row_err = Some ErrNoStructPointer\<rparr>, w) \<and>
      Tx_ExecStruct tx query st w = Inr (Inl ErrNoStructPointer, w) \<and>
      Stmt_ExecStruct s st w = Inr (Inl (ErrorString ''mp should be a map's pointer''), w) \<and>
      Stmt_QueryStruct s st w = Inr (Inl (ErrorString ''mp should be a map's pointer''), w) \<and>
      Stmt_QueryRowStruct s st w =
        Inr (\<lparr>Row_rows = None, Row_err = Some (ErrorString ''st should be a struct's pointer'')\<rparr>, w))"
proof (intro conjI impI)
  assume a: "(\<forall>m. mp \<noteq> Ptr (Some (MapV m))) \<and> mp \<noteq> Ptr (Some MapOtherKey)"
  note m = MapToSlice_invalid_kind[OF a]
  from a have k: "Kind mp \<noteq> reflect_Ptr \<or> Kind (Elem mp) \<noteq> reflect_Map"
    by (simp only: not_map_pointer_iff)
  show "MapToSlice query mp = Inr ('''', [], Some ErrNoMapPointer)" by (rule m)
  show "DB_QueryMap db query mp w = Inr (Inl ErrNoMapPointer, w)" by (simp add: DB_QueryMap_def m)
  show "DB_QueryRowMap db query mp w =
        Inr (\<lparr>Row_rows = None, Row_err = Some ErrNoMapPointer\<rparr>, w)"
    by (simp add: DB_QueryRowMap_def m)
  show "DB_ExecMap db query mp w = Inr (Inl ErrNoMapPointer, w)" by (simp add: DB_ExecMap_def m)
  show "Tx_QueryMap tx query mp w = Inr (Inl ErrNoMapPointer, w)" by (simp add: Tx_QueryMap_def m)
  show "Tx_QueryRowMap tx query mp w =
        Inr (\<lparr>Row_rows = None, Row_err = Some ErrNoMapPointer\<rparr>, w)"
    by (simp add: Tx_QueryRowMap_def m)
  show "Tx_ExecMap tx query mp w = Inr (Inl ErrNoMapPointer, w)" by (simp add: Tx_ExecMap_def m)
  show "Stmt_ExecMap s mp w = Inr (Inl (ErrorString ''mp should be a map's pointer''), w)"
    using k by (simp add: Stmt_ExecMap_def)
  show "Stmt_QueryMap s mp w = Inr (Inl (ErrorString ''mp should be a map's pointer''), w)"
    using k by (simp add: Stmt_QueryMap_def)
  show "Stmt_QueryRowMap s mp w =
        Inr (\<lparr>Row_rows = None, Row_err = Some (ErrorString ''mp should be a map's pointer'')\<rparr>, w)"
    using k by (simp add: Stmt_QueryRowMap_def)
next
  assume a: "\<forall>fs. st \<noteq> Ptr (Some (StructV fs))"
  note m = StructToSlice_invalid_kind[OF a]
  from a have k: "Kind st \<noteq> reflect_Ptr \<or> Kind (Elem st) \<noteq> reflect_Struct"
    by (simp only: not_struct_pointer_iff)
  show "StructToSlice query st = Inr ('''', [], Some ErrNoStructPointer)" by (rule m)
  show "DB_QueryStruct db query st w = Inr (Inl ErrNoStructPointer, w)"
    by (simp add: DB_QueryStruct_def m)
  show "DB_QueryRowStruct db query st w =
        Inr (\<lparr>Row_rows = None, Row_err = Some ErrNoStructPointer\<rparr>, w)"
    by (simp add: DB_QueryRowStruct_def m)
  show "DB_ExecStruct db query st w = Inr (Inl ErrNoStructPointer, w)"
    by (simp add: DB_ExecStruct_def m)
  show "Tx_QueryStruct tx query st w = Inr (Inl ErrNoStructPointer, w)"
    by (simp add: Tx_QueryStruct_def m)
  show "Tx_QueryRowStruct tx query st w =
        Inr (\<lparr>Row_rows = None, Row_err = Some ErrNoStructPointer\<rparr>, w)"
    by (simp add: Tx_QueryRowStruct_def m)
  show "Tx_ExecStruct tx query st w = Inr (Inl ErrNoStructPointer, w)"
    by (simp add: Tx_ExecStruct_def m)
  show "Stmt_ExecStruct s st w = Inr (Inl (ErrorString ''mp should be a map's pointer''), w)"
    using k by (simp add: Stmt_ExecStruct_def)
  show "Stmt_QueryStruct s st w = Inr (Inl (ErrorString ''mp should be a map's pointer''), w)"
    using k by (simp add: Stmt_QueryStruct_def)
  show "Stmt_QueryRowStruct s st w =
        Inr (\<lparr>Row_rows = None, Row_err = Some (ErrorString ''st should be a struct's pointer'')\<rparr>, w)"
    using k by (simp add: Stmt_QueryRowStruct_def)
qed

theorem C4_invalid_argument_kind_witness:
  "(\<forall>m. MapV [''a'' \<mapsto> VInt 1] \<noteq> Ptr (Some (MapV m))) \<and>
   MapV [''a'' \<mapsto> VInt 1] \<noteq> Ptr (Some MapOtherKey) \<and>
   (\<forall>fs. Ptr None \<noteq> Ptr (Some (StructV fs))) \<and>
   DB_ExecMap demo_db ''insert into t values (?a)'' (MapV [''a'' \<mapsto> VInt 1]) world0 =
     Inr (Inl ErrNoMapPointer, world0) \<and>
   Stmt_ExecMap demo_stmt (MapV [''a'' \<mapsto> VInt 1]) world0 =
     Inr (Inl (ErrorString ''mp should be a map's pointer''), world0) \<and>
   StructToSlice ''insert into t values (?A)'' (Ptr None) = Inr ('''', [], Some ErrNoStructPointer) \<and>
   Tx_QueryRowStruct demo_tx ''select ?A'' (Ptr None) world0 =
     Inr (\<lparr>Row_rows = None, Row_err = Some ErrNoStructPointer\<rparr>, world0)"
proof -
  have 1: "(\<forall>m. MapV [''a'' \<mapsto> VInt 1] \<noteq> Ptr (Some (MapV m))) \<and>
           MapV [''a'' \<mapsto> VInt 1] \<noteq> Ptr (Some MapOtherKey)" by simp
  have 2: "\<forall>fs. Ptr None \<noteq> Ptr (Some (StructV fs))" by simp
  note t1 = C4_invalid_argument_kind[of "MapV [''a'' \<mapsto> VInt 1]" "''insert into t values (?a)''"
              demo_db world0 demo_tx demo_stmt "Ptr None"]
  note t2 = C4_invalid_argument_kind[of "MapV [''a'' \<mapsto> VInt 1]" "''insert into t values (?A)''"
              demo_db world0 demo_tx demo_stmt "Ptr None"]
  note t3 = C4_invalid_argument_kind[of "MapV [''a'' \<mapsto> VInt 1]" "''select ?A''"
              demo_db world0 demo_tx demo_stmt "Ptr None"]
  from t1 t2 t3 1 2 show ?thesis by blast
qed

subsection \<open>A failed value conversion\<close>

text \<open>
  C5. The claim is that a failed conversion makes \<^verbatim>\<open>StructToSlice\<close> return the error.
  It does so only if no \<^verbatim>\<open>Valuer\<close> is converted after the failure: when every named
  field is readable and the last \<^verbatim>\<open>Valuer\<close> among the placeholders converts (only plain
  fields follow it), \<^verbatim>\<open>StructToSlice\<close> returns the rewritten template without an error,
  whatever conversions failed before; the argument list holds the converted value of
  each \<^verbatim>\<open>Valuer\<close> that succeeded, the raw value of each plain field, and nothing for a
  \<^verbatim>\<open>Valuer\<close> that failed.
\<close>

theorem C5_conversion_error_overwritten:
  assumes "\<forall>n \<in> set (placeholders query). \<exists>f. fs n = Some f \<and> exported n"
      and "placeholders query = ns @ [y] @ ps"
      and "fs y = Some (Valuer v (Inr val))"
      and "\<forall>n \<in> set ps. \<exists>fv. fs n = Some (Plain fv)"
  shows "StructToSlice query (Ptr (Some (StructV fs))) =
           Inr (rewritten query,
                concat (map (\<lambda>n. appended (the (fs n))) (placeholders query)), None)"
proof -
  have "fold (\<lambda>n. err_after (the (fs n))) (placeholders query) None = None"
    by (simp add: assms(2) assms(3) err_after_plain[OF assms(4)])
  then show ?thesis
    by (simp add: StructToSlice_eq[OF assms(1)])
qed

theorem C5_conversion_error_overwritten_witness:
  "placeholders ''insert into t (a,b) values (?X, ?Y)'' = [''X''] @ [''Y''] @ [] \<and>
   StructToSlice ''insert into t (a,b) values (?X, ?Y)''
     (Ptr (Some (StructV [''X'' \<mapsto> Valuer (VInt 1) (Inl (External ''bad'')),
                          ''Y'' \<mapsto> Valuer (VStr ''s'') (Inr (VStr ''s''))]))) =
     Inr (''insert into t (a,b) values (?, ?)'', [VStr ''s''], None) \<and>
   DB_ExecStruct demo_db ''insert into t (a,b) values (?X, ?Y)''
     (Ptr (Some (StructV [''X'' \<mapsto> Valuer (VInt 1) (Inl (External ''bad'')),
                          ''Y'' \<mapsto> Valuer (VStr ''s'') (Inr (VStr ''s''))]))) world0 =
     Inr (Inr (Result 1),
          \<lparr>heap = [], trace = [ExecContext ''insert into t (a,b) values (?, ?)'' [VStr ''s'']]\<rparr>)"
proof -
  let ?q = "''insert into t (a,b) values (?X, ?Y)''"
  let ?fs = "[''X'' \<mapsto> Valuer (VInt 1) (Inl (External ''bad'')),
              ''Y'' \<mapsto> Valuer (VStr ''s'') (Inr (VStr ''s''))]"
  have p: "placeholders ?q = [''X''] @ [''Y''] @ []"
    by (simp add: placeholders_def is_word_def)
  have r: "rewritten ?q = ''insert into t (a,b) values (?, ?)''"
    by (simp add: rewritten_def is_word_def)
  have 1: "\<forall>n \<in> set (placeholders ?q). \<exists>f. ?fs n = Some f \<and> exported n"
    unfolding p by (simp add: exported_def)
  have 3: "?fs ''Y'' = Some (Valuer (VStr ''s'') (Inr (VStr ''s'')))" by simp
  have 4: "\<forall>n \<in> set []. \<exists>fv. ?fs n = Some (Plain fv)" by simp
  note t = C5_conversion_error_overwritten[where fs = ?fs and y = "''Y''", OF 1 p 3 4]
  have s: "StructToSlice ?q (Ptr (Some (StructV ?fs))) =
     Inr (''insert into t (a,b) values (?, ?)'', [VStr ''s''], None)"
    unfolding t r p by simp
  have d: "DB_ExecStruct demo_db ?q (Ptr (Some (StructV ?fs))) world0 =
     Inr (Inr (Result 1),
          \<lparr>heap = [], trace = [ExecContext ''insert into t (a,b) values (?, ?)'' [VStr ''s'']]\<rparr>)"
    unfolding DB_ExecStruct_def s
    by (simp add: DB_Exec_def traced_def emit_def demo_db_def ok_DB_def world0_def)
  from p s d show ?thesis by (simp only:)
qed

subsection \<open>Templates without placeholders\<close>

text \<open>
  C6. A template in which no \<^verbatim>\<open>?\<close> is directly followed by a word character is
  rewritten to itself. \<^verbatim>\<open>MapToSlice\<close> (on a pointer to a map of any key type) and \<^verbatim>\<open>StructToSlice\<close>
  (on a pointer to a struct) return it unchanged with an empty argument list and no error.
  \<^verbatim>\<open>DB.Prepare\<close> and \<^verbatim>\<open>Tx.Prepare\<close> allocate an empty name table, hand the unchanged
  template to the driver, and the handle they return (when the driver accepts) refers to
  the empty table.
\<close>

theorem C6_no_placeholder:
  assumes "\<not> has_token query"
  shows "rewritten query = query \<and>
         MapToSlice query (Ptr (Some (MapV m))) = Inr (query, [], None) \<and>
         MapToSlice query (Ptr (Some MapOtherKey)) = Inr (query, [], None) \<and>
         StructToSlice query (Ptr (Some (StructV fs))) = Inr (query, [], None) \<and>
         heap (snd (DB_Prepare db query w)) = heap w @ [[]] \<and>
         trace (snd (DB_Prepare db query w)) =
           trace w @ (if DB_enableTrace db
                      then [SpanStart (operationName query) query, PrepareContext query, SpanFinish]
                      else [PrepareContext query]) \<and>
         (\<forall>s. fst (DB_Prepare db query w) = Inr s \<longrightarrow>
                deref (snd (DB_Prepare db query w)) (Stmt_names s) = []) \<and>
         heap (snd (Tx_Prepare tx query w)) = heap w @ [[]] \<and>
         trace (snd (Tx_Prepare tx query w)) =
           trace w @ (if Tx_enableTrace tx
                      then [SpanStart (operationName query) query, PrepareContext query, SpanFinish]
                      else [PrepareContext query]) \<and>
         (\<forall>s. fst (Tx_Prepare tx query w) = Inr s \<longrightarrow>
                deref (snd (Tx_Prepare tx query w)) (Stmt_names s) = [])"
proof -
  have r: "rewritten query = query" using assms by (rule rewritten_no_token)
  have t: "name_table_of query = []"
    using assms by (simp add: name_table_of_def placeholders_no_token)
  have m: "MapToSlice query (Ptr (Some (MapV m))) = Inr (query, [], None)"
    by (simp add: MapToSlice_eq r placeholders_no_token[OF assms])
  have mo: "MapToSlice query (Ptr (Some MapOtherKey)) = Inr (query, [], None)"
    using assms by (rule MapToSlice_no_token)
  have st: "StructToSlice query (Ptr (Some (StructV fs))) = Inr (query, [], None)"
    using assms by (rule StructToSlice_no_token)
  have d: "\<forall>s. fst (DB_Prepare db query w) = Inr s \<longrightarrow>
                deref (snd (DB_Prepare db query w)) (Stmt_names s) = []"
    by (auto simp: DB_Prepare_fst DB_Prepare_heap deref_def t split: sum.splits)
  have x: "\<forall>s. fst (Tx_Prepare tx query w) = Inr s \<longrightarrow>
                deref (snd (Tx_Prepare tx query w)) (Stmt_names s) = []"
    by (auto simp: Tx_Prepare_fst Tx_Prepare_heap deref_def t split: sum.splits)
  show ?thesis
    using r m mo st d x
    by (simp add: DB_Prepare_heap Tx_Prepare_heap DB_Prepare_trace Tx_Prepare_trace t)
qed

theorem C6_no_placeholder_witness:
  "\<not> has_token ''select 1 where x = ? or y = ?'' \<and>
   MapToSlice ''select 1 where x = ? or y = ?'' (Ptr (Some (MapV [''a'' \<mapsto> VInt 1]))) =
     Inr (''select 1 where x = ? or y = ?'', [], None) \<and>
   fst (DB_Prepare demo_db ''select 1 where x = ? or y = ?'' world0) = Inr demo_stmt \<and>
   deref (snd (DB_Prepare demo_db ''select 1 where x = ? or y = ?'' world0)) (Stmt_names demo_stmt) = []"
proof -
  have h: "\<not> has_token ''select 1 where x = ? or y = ?''"
    by (simp add: is_word_def)
  have f: "fst (DB_Prepare demo_db ''select 1 where x = ? or y = ?'' world0) = Inr demo_stmt"
    by (simp add: DB_Prepare_fst demo_db_def ok_DB_def demo_stmt_def world0_def)
  from C6_no_placeholder[OF h, of "[''a'' \<mapsto> VInt 1]" Map.empty demo_db world0 demo_tx] h f
  show ?thesis by simp
qed

subsection \<open>\<^verbatim>\<open>MapToSlice\<close> with a missing key\<close>

text \<open>
  C9, as claimed, ranges over every map that lacks the key of some placeholder. A map
  whose key type does not accept a string (\<^verbatim>\<open>map[int]interface{}\<close>, say) lacks every
  name, and on a pointer to it \<^verbatim>\<open>MapToSlice\<close> returns nothing: the kind check passes and
  \<^verbatim>\<open>MapIndex\<close> panics at the first placeholder.
\<close>

theorem C9_MapToSlice_key_type_counterexample:
  "placeholders ''select ?a'' = [''a''] \<and>
   MapToSlice ''select ?a'' (Ptr (Some MapOtherKey)) = Inl KeyNotAssignable"
  by (simp add: placeholders_def MapToSlice_def MapToSlice_repl_def is_word_def)

text \<open>
  C9, amended. Let the map be one whose key type accepts a string. When it lacks the key
  of some placeholder, \<^verbatim>\<open>MapToSlice\<close> still returns the template with every placeholder
  replaced by the marker; the argument list holds the values of the present names only,
  in template order (so values after a missing name move left); and the error names the
  last missing name in template order. On a map of any other key type \<^verbatim>\<open>MapToSlice\<close>
  panics on such a template.
\<close>

theorem C9_MapToSlice_missing:
  assumes "k \<in> set (placeholders query)" and "m k = None"
  shows "MapToSlice query (Ptr (Some (MapV m))) =
           Inr (rewritten query,
                map (\<lambda>n. the (m n)) (filter (\<lambda>n. m n \<noteq> None) (placeholders query)),
                Some (missing_key (last (filter (\<lambda>n. m n = None) (placeholders query))))) \<and>
         MapToSlice query (Ptr (Some MapOtherKey)) = Inl KeyNotAssignable"
proof -
  from assms have "filter (\<lambda>n. m n = None) (placeholders query) \<noteq> []"
    by (auto simp: filter_empty_conv)
  then have "MapToSlice query (Ptr (Some (MapV m))) =
           Inr (rewritten query,
                map (\<lambda>n. the (m n)) (filter (\<lambda>n. m n \<noteq> None) (placeholders query)),
                Some (missing_key (last (filter (\<lambda>n. m n = None) (placeholders query)))))"
    by (simp add: MapToSlice_eq split: list.splits)
  moreover from assms(1) have "placeholders query \<noteq> []" by auto
  then have "MapToSlice query (Ptr (Some MapOtherKey)) = Inl KeyNotAssignable"
    by (rule MapToSlice_other_key)
  ultimately show ?thesis by simp
qed

theorem C9_MapToSlice_missing_witness:
  "''b'' \<in> set (placeholders ''select ?a, ?b, ?c, ?d'') \<and>
   [''a'' \<mapsto> VInt 1, ''c'' \<mapsto> VInt 3] ''b'' = None \<and>
   MapToSlice ''select ?a, ?b, ?c, ?d'' (Ptr (Some (MapV [''a'' \<mapsto> VInt 1, ''c'' \<mapsto> VInt 3]))) =
     Inr (''select ?, ?, ?, ?'', [VInt 1, VInt 3], Some (ErrorString ''map key d is missing''))"
proof -
  have p: "placeholders ''select ?a, ?b, ?c, ?d'' = [''a'', ''b'', ''c'', ''d'']"
    by (simp add: placeholders_def is_word_def)
  have r: "rewritten ''select ?a, ?b, ?c, ?d'' = ''select ?, ?, ?, ?''"
    by (simp add: rewritten_def is_word_def)
  have 1: "''b'' \<in> set (placeholders ''select ?a, ?b, ?c, ?d'')" by (simp add: p)
  have 2: "[''a'' \<mapsto> VInt 1, ''c'' \<mapsto> VInt 3] ''b'' = None" by simp
  from C9_MapToSlice_missing[of "''b''" "''select ?a, ?b, ?c, ?d''"
      "[''a'' \<mapsto> VInt 1, ''c'' \<mapsto> VInt 3]", OF 1 2] 1 2 show ?thesis
    by (simp add: p r missing_key_def)
qed

subsection \<open>Preparing on a connection and on a transaction\<close>

text \<open>
  C7. Prepare the same template on a connection and on a transaction, in either order,
  the driver accepting both. Both driver calls receive the same rewritten template; the
  two handles refer to tables that are equal (both are the name table of the template)
  but are different objects of the store: the references differ, and replacing one table
  by anything (a map assignment through the handle is a special case, dropping the table
  another) leaves the table the other handle refers to unchanged.
\<close>

theorem C7_prepare_tables_equal_and_independent:
  assumes "(DB_Prepare db query w = (Inr s1, w1) \<and> Tx_Prepare tx query w1 = (Inr s2, w2)) \<or>
           (Tx_Prepare tx query w = (Inr s2, w1) \<and> DB_Prepare db query w1 = (Inr s1, w2))"
  shows "deref w2 (Stmt_names s1) = name_table_of query \<and>
         deref w2 (Stmt_names s2) = name_table_of query \<and>
         Stmt_names s1 \<noteq> Stmt_names s2 \<and>
         filter is_driver_call (drop (length (trace w)) (trace w2)) =
           [PrepareContext (rewritten query), PrepareContext (rewritten query)] \<and>
         (\<forall>t. deref (w2\<lparr>heap := (heap w2)[Stmt_names s1 := t]\<rparr>) (Stmt_names s2) =
                deref w2 (Stmt_names s2)) \<and>
         (\<forall>t. deref (w2\<lparr>heap := (heap w2)[Stmt_names s2 := t]\<rparr>) (Stmt_names s1) =
                deref w2 (Stmt_names s1)) \<and>
         (\<forall>k i. deref (map_assign (Stmt_names s1) k i w2) (Stmt_names s2) =
                deref w2 (Stmt_names s2)) \<and>
         (\<forall>k i. deref (map_assign (Stmt_names s2) k i w2) (Stmt_names s1) =
                deref w2 (Stmt_names s1))"
  using assms
proof (elim disjE conjE)
  assume a1: "DB_Prepare db query w = (Inr s1, w1)" and a2: "Tx_Prepare tx query w1 = (Inr s2, w2)"
  from a1 have n1: "Stmt_names s1 = length (heap w)"
    by (intro DB_Prepare_names[of db query w]) simp
  from a1 have h1: "heap w1 = heap w @ [name_table_of query]"
    using DB_Prepare_heap[of db query w] by simp
  from a2 have n2: "Stmt_names s2 = Suc (length (heap w))"
    using Tx_Prepare_names[of tx query w1 s2] h1 by simp
  from a2 have h2: "heap w2 = heap w @ [name_table_of query, name_table_of query]"
    using Tx_Prepare_heap[of tx query w1] h1 by simp
  have tr: "trace w2 = trace w @
       (if DB_enableTrace db
        then [SpanStart (operationName (rewritten query)) (rewritten query),
              PrepareContext (rewritten query), SpanFinish]
        else [PrepareContext (rewritten query)]) @
       (if Tx_enableTrace tx
        then [SpanStart (operationName (rewritten query)) (rewritten query),
              PrepareContext (rewritten query), SpanFinish]
        else [PrepareContext (rewritten query)])"
    using DB_Prepare_trace[of db query w] Tx_Prepare_trace[of tx query w1] a1 a2 by simp
  from two_prepares[OF n1 n2 h2 tr] show ?thesis by simp
next
  assume a1: "Tx_Prepare tx query w = (Inr s2, w1)" and a2: "DB_Prepare db query w1 = (Inr s1, w2)"
  from a1 have n1: "Stmt_names s2 = length (heap w)"
    by (intro Tx_Prepare_names[of tx query w]) simp
  from a1 have h1: "heap w1 = heap w @ [name_table_of query]"
    using Tx_Prepare_heap[of tx query w] by simp
  from a2 have n2: "Stmt_names s1 = Suc (length (heap w))"
    using DB_Prepare_names[of db query w1 s1] h1 by simp
  from a2 have h2: "heap w2 = heap w @ [name_table_of query, name_table_of query]"
    using DB_Prepare_heap[of db query w1] h1 by simp
  have tr: "trace w2 = trace w @
       (if Tx_enableTrace tx
        then [SpanStart (operationName (rewritten query)) (rewritten query),
              PrepareContext (rewritten query), SpanFinish]
        else [PrepareContext (rewritten query)]) @
       (if DB_enableTrace db
        then [SpanStart (operationName (rewritten query)) (rewritten query),
              PrepareContext (rewritten query), SpanFinish]
        else [PrepareContext (rewritten query)])"
    using DB_Prepare_trace[of db query w1] Tx_Prepare_trace[of tx query w] a1 a2 by simp
  from two_prepares[OF n1 n2 h2 tr] show ?thesis by simp
qed

theorem C7_prepare_tables_equal_and_independent_witness:
  "DB_Prepare demo_db ''select ?a, ?b'' world0 =
     (Inr demo_stmt, \<lparr>heap = [[(''a'', 0), (''b'', 1)]], trace = [PrepareContext ''select ?, ?'']\<rparr>) \<and>
   Tx_Prepare demo_tx ''select ?a, ?b''
       \<lparr>heap = [[(''a'', 0), (''b'', 1)]], trace = [PrepareContext ''select ?, ?'']\<rparr> =
     (Inr (demo_stmt\<lparr>Stmt_names := 1\<rparr>),
      \<lparr>heap = [[(''a'', 0), (''b'', 1)], [(''a'', 0), (''b'', 1)]],
       trace = [PrepareContext ''select ?, ?'', PrepareContext ''select ?, ?'']\<rparr>) \<and>
   deref (map_assign (Stmt_names demo_stmt) ''a'' 7
            \<lparr>heap = [[(''a'', 0), (''b'', 1)], [(''a'', 0), (''b'', 1)]],
             trace = [PrepareContext ''select ?, ?'', PrepareContext ''select ?, ?'']\<rparr>)
         (Stmt_names (demo_stmt\<lparr>Stmt_names := 1\<rparr>)) =
     [(''a'', 0), (''b'', 1)]"
proof -
  let ?w1 = "\<lparr>heap = [[(''a'', 0), (''b'', 1)]], trace = [PrepareContext ''select ?, ?'']\<rparr>"
  let ?w2 = "\<lparr>heap = [[(''a'', 0), (''b'', 1)], [(''a'', 0), (''b'', 1)]],
             trace = [PrepareContext ''select ?, ?'', PrepareContext ''select ?, ?'']\<rparr>"
  let ?s2 = "demo_stmt\<lparr>Stmt_names := 1\<rparr>"
  have r: "rewritten ''select ?a, ?b'' = ''select ?, ?''"
    by (simp add: rewritten_def is_word_def)
  have t: "name_table_of ''select ?a, ?b'' = [(''a'', 0), (''b'', 1)]"
    by (simp add: name_table_of_def placeholders_def is_word_def)
  have 1: "DB_Prepare demo_db ''select ?a, ?b'' world0 = (Inr demo_stmt, ?w1)"
    unfolding DB_Prepare_eq r t
    by (simp add: demo_db_def ok_DB_def demo_stmt_def world0_def traced_def emit_def)
  have 2: "Tx_Prepare demo_tx ''select ?a, ?b'' ?w1 = (Inr ?s2, ?w2)"
    unfolding Tx_Prepare_eq r t
    by (simp add: demo_tx_def ok_Tx_def demo_stmt_def traced_def emit_def)
  from 1 2 have "(DB_Prepare demo_db ''select ?a, ?b'' world0 = (Inr demo_stmt, ?w1) \<and>
                  Tx_Prepare demo_tx ''select ?a, ?b'' ?w1 = (Inr ?s2, ?w2)) \<or>
                 (Tx_Prepare demo_tx ''select ?a, ?b'' world0 = (Inr ?s2, ?w1) \<and>
                  DB_Prepare demo_db ''select ?a, ?b'' ?w1 = (Inr demo_stmt, ?w2))"
    by (intro disjI1 conjI)
  note c = C7_prepare_tables_equal_and_independent[OF this]
  from c have e: "deref ?w2 (Stmt_names ?s2) = name_table_of ''select ?a, ?b''"
    by (elim conjE)
  from c have "\<forall>k i. deref (map_assign (Stmt_names demo_stmt) k i ?w2) (Stmt_names ?s2) =
                deref ?w2 (Stmt_names ?s2)"
    by (elim conjE)
  then have "deref (map_assign (Stmt_names demo_stmt) ''a'' 7 ?w2) (Stmt_names ?s2) =
                deref ?w2 (Stmt_names ?s2)"
    by (elim allE)
  with 1 2 e t show ?thesis by (simp only:) 
qed

subsection \<open>What the rewriter recognizes\<close>

text \<open>
  C8. Every match of the rewriter is a \<^verbatim>\<open>?\<close> followed by one or more word characters.
  A \<^verbatim>\<open>?\<close> that is followed by no word character (it ends the template, or the next
  byte is not a word character) is copied to the output unchanged and the callback is
  not called for it: whatever the callback (the one of \<^verbatim>\<open>Prepare\<close>, of \<^verbatim>\<open>MapToSlice\<close> or
  of \<^verbatim>\<open>StructToSlice\<close>), the state it keeps (name table, counter, argument list, error)
  after the template is the state after the text before the \<^verbatim>\<open>?\<close> followed by the text
  after it. So it adds no placeholder name, no table entry and no argument.
\<close>

theorem C8_only_tokens_recognized:
  "(\<forall>src \<in> set (FindAllString query).
      \<exists>name. src = CHR ''?'' # name \<and> name \<noteq> [] \<and> (\<forall>c \<in> set name. is_word c)) \<and>
   (tail = [] \<or> \<not> is_word (hd tail) \<longrightarrow>
      ReplaceAllStringFunc repl (pre @ CHR ''?'' # tail) st =
        (fst (ReplaceAllStringFunc repl pre st) @
           CHR ''?'' # fst (ReplaceAllStringFunc repl tail (snd (ReplaceAllStringFunc repl pre st))),
         snd (ReplaceAllStringFunc repl tail (snd (ReplaceAllStringFunc repl pre st)))) \<and>
      rewritten (pre @ CHR ''?'' # tail) = rewritten pre @ CHR ''?'' # rewritten tail \<and>
      placeholders (pre @ CHR ''?'' # tail) = placeholders pre @ placeholders tail)"
proof (intro conjI impI ballI)
  fix src assume "src \<in> set (FindAllString query)"
  then show "\<exists>name. src = CHR ''?'' # name \<and> name \<noteq> [] \<and> (\<forall>c \<in> set name. is_word c)"
    by (rule FindAllString_shape)
next
  assume b: "tail = [] \<or> \<not> is_word (hd tail)"
  show "ReplaceAllStringFunc repl (pre @ CHR ''?'' # tail) st =
        (fst (ReplaceAllStringFunc repl pre st) @
           CHR ''?'' # fst (ReplaceAllStringFunc repl tail (snd (ReplaceAllStringFunc repl pre st))),
         snd (ReplaceAllStringFunc repl tail (snd (ReplaceAllStringFunc repl pre st))))"
    by (simp only: ReplaceAllStringFunc_cut[OF not_word_question] bare_question_mark(1)[OF b]
                   fst_conv snd_conv)
  show "rewritten (pre @ CHR ''?'' # tail) = rewritten pre @ CHR ''?'' # rewritten tail"
    unfolding rewritten_def
    by (simp only: ReplaceAllStringFunc_cut[OF not_word_question] bare_question_mark(1)[OF b]
                   fst_conv snd_conv) simp
  show "placeholders (pre @ CHR ''?'' # tail) = placeholders pre @ placeholders tail"
    by (simp only: placeholders_def FindAllString_cut[OF not_word_question]
                   bare_question_mark(2)[OF b] map_append)
qed

theorem C8_only_tokens_recognized_witness:
  "\<not> is_word (hd '' and c = ?y'') \<and>
   ReplaceAllStringFunc (\<lambda>src n. (''?'', Suc n))
       (''a = ?x and b = '' @ CHR ''?'' # '' and c = ?y'') (0::nat) =
     (''a = ? and b = ? and c = ?'', 2) \<and>
   placeholders (''a = ?x and b = '' @ CHR ''?'' # '' and c = ?y'') = [''x'', ''y'']"
proof -
  have b: "'' and c = ?y'' = [] \<or> \<not> is_word (hd '' and c = ?y'')"
    by (simp add: is_word_def)
  have p1: "placeholders ''a = ?x and b = '' = [''x'']"
    by (simp add: placeholders_def is_word_def)
  have p2: "placeholders '' and c = ?y'' = [''y'']"
    by (simp add: placeholders_def is_word_def)
  have r1: "ReplaceAllStringFunc (\<lambda>src n. (''?'', Suc n)) ''a = ?x and b = '' (0::nat) =
              (''a = ? and b = '', Suc 0)"
    by (simp add: is_word_def)
  have r2: "ReplaceAllStringFunc (\<lambda>src n. (''?'', Suc n)) '' and c = ?y'' (Suc 0) =
              ('' and c = ?'', Suc (Suc 0))"
    by (simp add: is_word_def)
  note t = C8_only_tokens_recognized[of "[]" "'' and c = ?y''" "(\<lambda>src n. (''?'', Suc n))"
             "''a = ?x and b = ''" "0::nat"]
  from t b have e: "ReplaceAllStringFunc (\<lambda>src n. (''?'', Suc n))
       (''a = ?x and b = '' @ CHR ''?'' # '' and c = ?y'') (0::nat) =
     (''a = ? and b = '' @ CHR ''?'' # '' and c = ?'', Suc (Suc 0))"
    by (simp only: r1 r2 fst_conv snd_conv)
  from t b have p: "placeholders (''a = ?x and b = '' @ CHR ''?'' # '' and c = ?y'') =
     [''x''] @ [''y'']"
    by (simp only: p1 p2)
  show ?thesis unfolding e p using b by simp
qed

subsection \<open>\<^verbatim>\<open>Tx.Stmt\<close>\<close>

text \<open>
  C10. \<^verbatim>\<open>Tx.Stmt\<close> returns the statement handle it is given: the handle is not rebound
  to the transaction, and no driver call is made (the function takes no world).
\<close>

theorem C10_Tx_Stmt_identity: "Tx_Stmt tx stmt = stmt"
  by (simp add: Tx_Stmt_def)

end
